theory Spec2Isabelle
  imports Main "HOL-Library.Word" "HOL-Library.AList" "HOL-Library.List_Lexorder"
    "HOL-Library.Char_ord"
begin

unbundle bit_operations_syntax

section \<open>The file cache of \<^verbatim>\<open>cache.go\<close>\<close>

text \<open>
  The development follows \<^verbatim>\<open>cache.go\<close>: the two structs, the constructor and the
  operations \<^verbatim>\<open>Set\<close>, \<^verbatim>\<open>SetWithTTL\<close>, \<^verbatim>\<open>Get\<close>, \<^verbatim>\<open>GetString\<close>,
  \<^verbatim>\<open>Exists\<close>, \<^verbatim>\<open>Delete\<close>, \<^verbatim>\<open>PurgeExpired\<close>, \<^verbatim>\<open>ListKeys\<close> and
  \<^verbatim>\<open>getFilePath\<close>. A Go \<^verbatim>\<open>string\<close> is a byte sequence and is a \<^typ>\<open>string\<close> here
  (an Isabelle \<^typ>\<open>char\<close> is one byte); a \<^verbatim>\<open>[]byte\<close> payload is a list of
  8-bit words. A \<^verbatim>\<open>time.Time\<close> is the wall-clock instant in nanoseconds and a
  \<^verbatim>\<open>time.Duration\<close> a number of nanoseconds, both \<^typ>\<open>int\<close>: a duration spans at
  most 292 years, far inside the range of \<^verbatim>\<open>time.Time\<close>, so \<^verbatim>\<open>Add\<close> is plain
  addition. Every call of \<^verbatim>\<open>time.Now()\<close> is an argument of the operation that makes
  it, one argument per call.
\<close>

type_synonym bytes = "8 word list"
type_synonym time = int
type_synonym duration = int

record CacheItem =
  Key :: string
  Data :: bytes
  ExpireAt :: time
  Created :: time

record FileCache =
  baseDir :: string
  ttl :: duration
  dirLevels :: int
  prefixLen :: int
  purgeOnLoad :: bool

text \<open>
  The errors the operations return, named as the specification names them; the message of
  the source is given with each. \<open>SliceBoundsPanic\<close> is the run-time panic of a slice
  expression or an index out of range.
\<close>

datatype error =
    DirectoryCreationFailed  \<comment> \<open>\<^verbatim>\<open>failed to create cache directory\<close>, \<^verbatim>\<open>failed to create directory\<close>\<close>
  | InvalidConfiguration     \<comment> \<open>\<^verbatim>\<open>invalid prefix length\<close>\<close>
  | SerializationFailed      \<comment> \<open>\<^verbatim>\<open>failed to marshal cache item\<close>\<close>
  | WriteFailed              \<comment> \<open>\<^verbatim>\<open>failed to write cache file\<close>\<close>
  | NotFound                 \<comment> \<open>\<^verbatim>\<open>cache not found\<close>\<close>
  | ReadFailed               \<comment> \<open>\<^verbatim>\<open>failed to read cache file\<close>\<close>
  | CorruptRecord            \<comment> \<open>\<^verbatim>\<open>failed to parse cache file\<close>\<close>
  | Expired                  \<comment> \<open>\<^verbatim>\<open>cache expired\<close>\<close>
  | DeleteFailed             \<comment> \<open>\<^verbatim>\<open>failed to delete cache file\<close>\<close>
  | SliceBoundsPanic

subsection \<open>Package \<^verbatim>\<open>strings\<close>\<close>

definition HasPrefix :: "string \<Rightarrow> string \<Rightarrow> bool" where
  "HasPrefix s p = (take (length p) s = p)"

definition HasSuffix :: "string \<Rightarrow> string \<Rightarrow> bool" where
  "HasSuffix s suf = (length suf \<le> length s \<and> drop (length s - length suf) s = suf)"

definition TrimSuffix :: "string \<Rightarrow> string \<Rightarrow> string" where
  "TrimSuffix s suf = (if HasSuffix s suf then take (length s - length suf) s else s)"

text \<open>
  \<^verbatim>\<open>strings.ReplaceAll\<close>: the non-overlapping occurrences of \<open>old\<close> are replaced from
  left to right. The program only calls it with a non-empty \<open>old\<close>; for an empty \<open>old\<close>
  the model inserts \<open>new\<close> around every byte.
\<close>

function ReplaceAll :: "string \<Rightarrow> string \<Rightarrow> string \<Rightarrow> string" where
  "ReplaceAll s old new =
     (if old = [] then concat (new # map (\<lambda>c. c # new) s)
      else if s = [] then []
      else if HasPrefix s old then new @ ReplaceAll (drop (length old) s) old new
      else hd s # ReplaceAll (tl s) old new)"
  by pat_completeness auto
termination
  by (relation "measure (\<lambda>(s, old, new). length s)") (auto simp: HasPrefix_def)

declare ReplaceAll.simps [simp del]

text \<open>\<^verbatim>\<open>strings.Split(s, "/")\<close>: one more part than there are separators.\<close>

fun splitSep :: "string \<Rightarrow> string list" where
  "splitSep [] = [] # []"
| "splitSep (c # cs) =
     (if c = CHR ''/'' then [] # splitSep cs
      else (case splitSep cs of [] \<Rightarrow> [c] # [] | s # ss \<Rightarrow> (c # s) # ss))"

text \<open>\<^verbatim>\<open>strings.Join(parts, "/")\<close>.\<close>

fun joinSep :: "string list \<Rightarrow> string" where
  "joinSep [] = []"
| "joinSep [s] = s"
| "joinSep (s # t # ss) = s @ CHR ''/'' # joinSep (t # ss)"

subsection \<open>Packages \<^verbatim>\<open>crypto/sha256\<close> and \<^verbatim>\<open>encoding/hex\<close>\<close>

text \<open>
  SHA-256 as FIPS 180-4 defines it, on 32-bit words. The 64 round constants \<open>K256\<close>
  (the first 32 bits of the fractional parts of the cube roots of the first 64 primes) and
  the initial hash value \<open>H0\<close> (of the square roots of the first 8 primes) are written
  in decimal: the first round constant is 1116352408, which is 428a2f98 in hexadecimal.
\<close>

type_synonym u32 = "32 word"

definition rotr :: "nat \<Rightarrow> u32 \<Rightarrow> u32" where
  "rotr n x = drop_bit n x OR push_bit (32 - n) x"

definition K256 :: "u32 list" where
  "K256 =
    [1116352408, 1899447441, 3049323471, 3921009573, 961987163, 1508970993,
     2453635748, 2870763221, 3624381080, 310598401, 607225278, 1426881987,
     1925078388, 2162078206, 2614888103, 3248222580, 3835390401, 4022224774,
     264347078, 604807628, 770255983, 1249150122, 1555081692, 1996064986,
     2554220882, 2821834349, 2952996808, 3210313671, 3336571891, 3584528711,
     113926993, 338241895, 666307205, 773529912, 1294757372, 1396182291,
     1695183700, 1986661051, 2177026350, 2456956037, 2730485921, 2820302411,
     3259730800, 3345764771, 3516065817, 3600352804, 4094571909, 275423344,
     430227734, 506948616, 659060556, 883997877, 958139571, 1322822218,
     1537002063, 1747873779, 1955562222, 2024104815, 2227730452, 2361852424,
     2428436474, 2756734187, 3204031479, 3329325298]"

definition H0 :: "u32 list" where
  "H0 =
    [1779033703, 3144134277, 1013904242, 2773480762,
     1359893119, 2600822924, 528734635, 1541459225]"

definition ssig0 :: "u32 \<Rightarrow> u32" where
  "ssig0 x = rotr 7 x XOR rotr 18 x XOR drop_bit 3 x"

definition ssig1 :: "u32 \<Rightarrow> u32" where
  "ssig1 x = rotr 17 x XOR rotr 19 x XOR drop_bit 10 x"

definition bsig0 :: "u32 \<Rightarrow> u32" where
  "bsig0 x = rotr 2 x XOR rotr 13 x XOR rotr 22 x"

definition bsig1 :: "u32 \<Rightarrow> u32" where
  "bsig1 x = rotr 6 x XOR rotr 11 x XOR rotr 25 x"

definition ch :: "u32 \<Rightarrow> u32 \<Rightarrow> u32 \<Rightarrow> u32" where
  "ch x y z = (x AND y) XOR (NOT x AND z)"

definition maj :: "u32 \<Rightarrow> u32 \<Rightarrow> u32 \<Rightarrow> u32" where
  "maj x y z = (x AND y) XOR (x AND z) XOR (y AND z)"

text \<open>
  The message schedule: \<open>ws\<close> holds the words computed so far, the latest first, so that
  \<open>W\<^sub>t\<^sub>-\<^sub>2\<close>, \<open>W\<^sub>t\<^sub>-\<^sub>7\<close>, \<open>W\<^sub>t\<^sub>-\<^sub>1\<^sub>5\<close> and \<open>W\<^sub>t\<^sub>-\<^sub>1\<^sub>6\<close> are at
  the indices 1, 6, 14 and 15.
\<close>

fun schedule :: "nat \<Rightarrow> u32 list \<Rightarrow> u32 list" where
  "schedule 0 ws = ws"
| "schedule (Suc n) ws =
     schedule n ((ssig1 (ws ! 1) + ws ! 6 + ssig0 (ws ! 14) + ws ! 15) # ws)"

fun rounds :: "u32 list \<Rightarrow> u32 list \<Rightarrow> u32 list \<Rightarrow> u32 list" where
  "rounds (k # ks) (w # ws) [a, b, c, d, e, f, g, h] =
     (let t1 = h + bsig1 e + ch e f g + k + w;
          t2 = bsig0 a + maj a b c
      in rounds ks ws [t1 + t2, a, b, c, d + t1, e, f, g])"
| "rounds _ _ st = st"

fun be32 :: "8 word list \<Rightarrow> u32 list" where
  "be32 (a # b # c # d # r) =
     (push_bit 24 (ucast a) OR push_bit 16 (ucast b) OR push_bit 8 (ucast c) OR ucast d) # be32 r"
| "be32 _ = []"

definition block :: "u32 list \<Rightarrow> 8 word list \<Rightarrow> u32 list" where
  "block st bs = map2 (+) st (rounds K256 (rev (schedule 48 (rev (be32 bs)))) st)"

fun blocks :: "nat \<Rightarrow> u32 list \<Rightarrow> 8 word list \<Rightarrow> u32 list" where
  "blocks 0 st bs = st"
| "blocks (Suc n) st bs = blocks n (block st (take 64 bs)) (drop 64 bs)"

text \<open>Padding: the byte 0x80, zeros up to 56 modulo 64, the bit length on 8 bytes.\<close>

definition pad :: "8 word list \<Rightarrow> 8 word list" where
  "pad m = (let l = length m; z = (119 - l mod 64) mod 64;
               bl = (word_of_nat (8 * l) :: 64 word)
            in m @ [0x80] @ replicate z 0 @
               map (\<lambda>i. ucast (drop_bit (8 * (7 - i)) bl)) [0..<8])"

definition bytes32 :: "u32 \<Rightarrow> 8 word list" where
  "bytes32 w = map (\<lambda>i. ucast (drop_bit (8 * (3 - i)) w)) [0..<4]"

definition Sum256 :: "8 word list \<Rightarrow> 8 word list" where
  "Sum256 m = (let p = pad m in concat (map bytes32 (blocks (length p div 64) H0 p)))"

definition hexdigit :: "nat \<Rightarrow> char" where
  "hexdigit n = ''0123456789abcdef'' ! n"

definition EncodeToString :: "8 word list \<Rightarrow> string" where
  "EncodeToString bs =
     concat (map (\<lambda>b. [hexdigit (unat (drop_bit 4 b)), hexdigit (unat (b AND 15))]) bs)"

subsection \<open>Package \<^verbatim>\<open>path/filepath\<close>, with \<^verbatim>\<open>/\<close> as the separator\<close>

definition isRooted :: "string \<Rightarrow> bool" where
  "isRooted p = (p \<noteq> [] \<and> hd p = CHR ''/'')"

text \<open>
  \<^verbatim>\<open>filepath.Clean\<close> works on the elements between separators, from left to right:
  empty elements and \<^verbatim>\<open>.\<close> are dropped, \<^verbatim>\<open>..\<close> removes the element before it when
  there is one that is not \<^verbatim>\<open>..\<close> itself, is dropped at the root, and is kept
  otherwise. \<open>pathSegs\<close> is the list of elements that remain.
\<close>

definition cleanStep :: "bool \<Rightarrow> string list \<Rightarrow> string \<Rightarrow> string list" where
  "cleanStep rooted out seg =
     (if seg = [] \<or> seg = ''.'' then out
      else if seg = ''..'' then
        (if out \<noteq> [] \<and> last out \<noteq> ''..'' then butlast out
         else if rooted then out
         else out @ [''..''])
      else out @ [seg])"

definition pathSegs :: "string \<Rightarrow> string list" where
  "pathSegs p = foldl (cleanStep (isRooted p)) [] (splitSep p)"

definition render :: "bool \<Rightarrow> string list \<Rightarrow> string" where
  "render rooted segs =
     (if rooted then CHR ''/'' # joinSep segs
      else if segs = [] then ''.''
      else joinSep segs)"

definition Clean :: "string \<Rightarrow> string" where
  "Clean p = render (isRooted p) (pathSegs p)"

text \<open>
  \<^verbatim>\<open>filepath.Join(a, b)\<close>: empty elements are ignored, the others are joined with the
  separator and the result is cleaned; the result is empty when both are.
\<close>

definition Join :: "string \<Rightarrow> string \<Rightarrow> string" where
  "Join a b =
     (if a \<noteq> [] then Clean (a @ CHR ''/'' # b)
      else if b \<noteq> [] then Clean b
      else [])"

text \<open>\<^verbatim>\<open>filepath.Dir\<close>: all but the last element, cleaned.\<close>

definition Dir :: "string \<Rightarrow> string" where
  "Dir p = Clean (rev (dropWhile (\<lambda>c. c \<noteq> CHR ''/'') (rev p)))"

text \<open>
  \<^verbatim>\<open>filepath.Ext\<close>: the suffix beginning at the final dot of the final element, empty
  if that element has no dot.
\<close>

definition Ext :: "string \<Rightarrow> string" where
  "Ext p =
     (let name = rev (takeWhile (\<lambda>c. c \<noteq> CHR ''/'') (rev p))
      in if CHR ''.'' \<in> set name
         then CHR ''.'' # rev (takeWhile (\<lambda>c. c \<noteq> CHR ''.'') (rev name))
         else [])"

subsection \<open>Package \<^verbatim>\<open>encoding/json\<close>\<close>

text \<open>
  \<^verbatim>\<open>json.Marshal\<close> and \<^verbatim>\<open>json.Unmarshal\<close> on \<^verbatim>\<open>CacheItem\<close> are parameters of
  the model, together with the type \<open>'b\<close> of file contents: \<open>Marshal\<close> may fail, and
  \<open>Unmarshal\<close> fills a fresh \<^verbatim>\<open>CacheItem\<close> or fails. What a theorem needs of them
  is a hypothesis of that theorem.
\<close>

record 'b codec =
  Marshal :: "CacheItem \<Rightarrow> 'b option"
  Unmarshal :: "'b \<Rightarrow> CacheItem option"

text \<open>
  The property of \<^verbatim>\<open>encoding/json\<close> that reading back relies on: what \<open>Marshal\<close>
  produced parses, to a record with the same payload bytes and the same expiration instant.
\<close>

definition roundTrips :: "'b codec \<Rightarrow> bool" where
  "roundTrips js =
     (\<forall>item b. Marshal js item = Some b \<longrightarrow>
        (\<exists>item'. Unmarshal js b = Some item' \<and> Data item' = Data item \<and>
                  ExpireAt item' = ExpireAt item))"

text \<open>
  A codec to run the model on concrete inputs: the content of a file is the record it
  parses to, and \<open>None\<close> for bytes that do not parse.
\<close>

definition recordCodec :: "CacheItem option codec" where
  "recordCodec = \<lparr>Marshal = (\<lambda>item. Some (Some item)), Unmarshal = (\<lambda>b. b)\<rparr>"

subsection \<open>Packages \<^verbatim>\<open>os\<close> and \<^verbatim>\<open>io/ioutil\<close>\<close>

text \<open>
  The storage is the list of regular files, each path with its content, with no path
  twice, and the list of directories, each by its cleaned path. The calls that the
  operating system refuses for a reason of its own (permissions, a full disk) are given
  by \<open>denied\<close>.
\<close>

datatype ioop = OpMkdir | OpWrite | OpRead | OpRemove

record 'b fsys =
  files :: "(string \<times> 'b) list"
  dirs :: "string list"
  denied :: "ioop \<Rightarrow> string \<Rightarrow> bool"

datatype oserror = ErrNotExist | ErrOther

definition IsNotExist :: "oserror \<Rightarrow> bool" where
  "IsNotExist e = (e = ErrNotExist)"

definition fileAt :: "'b fsys \<Rightarrow> string \<Rightarrow> 'b option" where
  "fileAt fs p = map_of (files fs) p"

definition isDir :: "'b fsys \<Rightarrow> string \<Rightarrow> bool" where
  "isDir fs p = (p \<noteq> [] \<and> Clean p \<in> set (dirs fs))"

text \<open>
  The directories on the way to \<open>p\<close>, from the root (or the current directory) down to
  \<open>p\<close> itself, and whether the way to \<open>p\<close> goes through a regular file, where the
  operating system answers \<^verbatim>\<open>ENOTDIR\<close>, which is not \<^verbatim>\<open>os.IsNotExist\<close>.
\<close>

definition ancestors :: "string \<Rightarrow> string list" where
  "ancestors p =
     map (\<lambda>k. render (isRooted p) (take k (pathSegs p))) [0..<Suc (length (pathSegs p))]"

definition throughFile :: "'b fsys \<Rightarrow> string \<Rightarrow> bool" where
  "throughFile fs p = (filter (\<lambda>a. fileAt fs a \<noteq> None) (butlast (ancestors p)) \<noteq> [])"

text \<open>Whether \<open>q\<close> lies below the directory \<open>d\<close>, and whether nothing does.\<close>

definition inside :: "string \<Rightarrow> string \<Rightarrow> bool" where
  "inside d q =
     (isRooted q = isRooted d \<and> length (pathSegs d) < length (pathSegs q) \<and>
      take (length (pathSegs d)) (pathSegs q) = pathSegs d)"

definition dirEmpty :: "'b fsys \<Rightarrow> string \<Rightarrow> bool" where
  "dirEmpty fs d = (filter (inside d) (map fst (files fs) @ dirs fs) = [])"

text \<open>
  \<^verbatim>\<open>os.MkdirAll\<close> creates the directory and the missing ones on the way to it; it
  fails on the empty path and when the way goes through a regular file.
\<close>

definition MkdirAll :: "'b fsys \<Rightarrow> string \<Rightarrow> oserror + 'b fsys" where
  "MkdirAll fs p =
     (if denied fs OpMkdir p then Inl ErrOther
      else if p = [] then Inl ErrNotExist
      else if filter (\<lambda>a. fileAt fs a \<noteq> None) (ancestors p) \<noteq> [] then Inl ErrOther
      else Inr (fs\<lparr>dirs := dirs fs @ filter (\<lambda>d. d \<notin> set (dirs fs)) (ancestors p)\<rparr>))"

text \<open>
  \<^verbatim>\<open>ioutil.WriteFile\<close> creates or replaces the regular file; it fails on a directory
  and when the directory to hold the file is not there.
\<close>

definition WriteFile :: "'b fsys \<Rightarrow> string \<Rightarrow> 'b \<Rightarrow> oserror + 'b fsys" where
  "WriteFile fs p b =
     (if denied fs OpWrite p then Inl ErrOther
      else if p = [] then Inl ErrNotExist
      else if isDir fs p then Inl ErrOther
      else if isDir fs (Dir p) then Inr (fs\<lparr>files := AList.update p b (files fs)\<rparr>)
      else if throughFile fs p then Inl ErrOther
      else Inl ErrNotExist)"

text \<open>
  \<^verbatim>\<open>ioutil.ReadFile\<close> returns the content of a regular file. On a directory and on a
  way through a regular file it fails with an error that is not \<^verbatim>\<open>os.IsNotExist\<close>;
  where nothing is, the error is \<^verbatim>\<open>os.IsNotExist\<close>.
\<close>

definition ReadFile :: "'b fsys \<Rightarrow> string \<Rightarrow> oserror + 'b" where
  "ReadFile fs p =
     (if denied fs OpRead p then Inl ErrOther
      else case fileAt fs p of
             Some b \<Rightarrow> Inr b
           | None \<Rightarrow>
               if isDir fs p then Inl ErrOther
               else if throughFile fs p then Inl ErrOther
               else Inl ErrNotExist)"

definition Stat :: "'b fsys \<Rightarrow> string \<Rightarrow> oserror option" where
  "Stat fs p =
     (case fileAt fs p of
        Some b \<Rightarrow> None
      | None \<Rightarrow>
          if isDir fs p then None
          else if throughFile fs p then Some ErrOther
          else Some ErrNotExist)"

text \<open>
  \<^verbatim>\<open>os.Remove\<close> removes a regular file or an empty directory; on a directory that is
  not empty it fails with an error that is not \<^verbatim>\<open>os.IsNotExist\<close>.
\<close>

definition Remove :: "'b fsys \<Rightarrow> string \<Rightarrow> oserror + 'b fsys" where
  "Remove fs p =
     (if denied fs OpRemove p then Inl ErrOther
      else case fileAt fs p of
             Some b \<Rightarrow> Inr (fs\<lparr>files := AList.delete p (files fs)\<rparr>)
           | None \<Rightarrow>
               if isDir fs p then
                 (if dirEmpty fs p then Inr (fs\<lparr>dirs := removeAll (Clean p) (dirs fs)\<rparr>)
                  else Inl ErrOther)
               else if throughFile fs p then Inl ErrOther
               else Inl ErrNotExist)"

text \<open>\<^verbatim>\<open>_ = os.Remove(path)\<close>: the error is dropped.\<close>

definition removeQuiet :: "'b fsys \<Rightarrow> string \<Rightarrow> 'b fsys" where
  "removeQuiet fs p = (case Remove fs p of Inl e \<Rightarrow> fs | Inr fs' \<Rightarrow> fs')"

text \<open>
  \<^verbatim>\<open>filepath.Walk(root, fn)\<close> visits the tree under \<open>root\<close> in lexical order, each
  directory's entries sorted by name. Both callbacks of the program return at once on a
  directory or on an error of the walk, so the walk is the list of the regular files
  under \<open>root\<close>: the paths whose elements start with those of \<open>root\<close> and go down from
  there. An empty \<open>root\<close> names no file, and the walk reports it to the callback as an
  error.
\<close>

definition underRoot :: "string \<Rightarrow> string \<Rightarrow> bool" where
  "underRoot root p =
     (root \<noteq> [] \<and> isRooted p = isRooted root \<and>
      (let a = pathSegs root; b = pathSegs p
       in take (length a) b = a \<and> ''..'' \<notin> set (drop (length a) b)))"

definition walkFiles :: "'b fsys \<Rightarrow> string \<Rightarrow> string list" where
  "walkFiles fs root = sort_key pathSegs (filter (underRoot root) (map fst (files fs)))"

text \<open>
  \<^verbatim>\<open>strings.Split(filepath.ToSlash(relPath), "/")\<close> for the \<open>relPath\<close> that
  \<^verbatim>\<open>filepath.Rel(root, path)\<close> returns on a path of the walk: the elements of \<open>path\<close>
  below \<open>root\<close>, and \<^verbatim>\<open>.\<close> when \<open>path\<close> is \<open>root\<close> itself. \<^verbatim>\<open>Rel\<close> does not fail on
  these paths.
\<close>

definition relParts :: "string \<Rightarrow> string \<Rightarrow> string list" where
  "relParts root p =
     (let rel = drop (length (pathSegs root)) (pathSegs p)
      in if rel = [] then [''.''] else rel)"

subsection \<open>\<^verbatim>\<open>getFilePath\<close>\<close>

text \<open>
  The slice expression \<^verbatim>\<open>hashStr[start:end]\<close>, evaluated when
  \<open>0 \<le> start \<le> end \<le> len(hashStr)\<close>; otherwise Go panics.
\<close>

definition substr :: "string \<Rightarrow> int \<Rightarrow> int \<Rightarrow> string" where
  "substr s start stop = take (nat (stop - start)) (drop (nat start) s)"

text \<open>
  The loop of \<^verbatim>\<open>getFilePath\<close>, from the level \<open>i\<close> on. Go's \<^verbatim>\<open>int\<close> has 64 bits; the
  products here do not wrap: with a negative \<open>prefixLen\<close> the first iteration panics,
  with \<open>prefixLen = 0\<close> every product is 0, and with a positive one the loop returns the
  error before \<open>i\<close> exceeds the length of the digest.
\<close>

function shardLoop :: "FileCache \<Rightarrow> string \<Rightarrow> int \<Rightarrow> string \<Rightarrow> error + string" where
  "shardLoop fc hashStr i path =
     (if i < dirLevels fc then
        (let start = i * prefixLen fc;
             stop = start + prefixLen fc
         in if stop > int (length hashStr) then Inl InvalidConfiguration
            else if start < 0 \<or> stop < start then Inl SliceBoundsPanic
            else shardLoop fc hashStr (i + 1) (Join path (substr hashStr start stop)))
      else Inr path)"
  by pat_completeness auto
termination
  by (relation "measure (\<lambda>(fc, hashStr, i, path). nat (dirLevels fc - i))") auto

declare shardLoop.simps [simp del]

text \<open>The key that is hashed and stored: both suffixes removed wherever they occur.\<close>

definition hasKey :: "string \<Rightarrow> string" where
  "hasKey key = ReplaceAll (ReplaceAll key ''_info.json'' []) ''_toc.json'' []"

definition hashStr :: "string \<Rightarrow> string" where
  "hashStr key = EncodeToString (Sum256 (map of_char (hasKey key)))"

definition getFilePath :: "FileCache \<Rightarrow> string \<Rightarrow> error + string" where
  "getFilePath fc key =
     (case shardLoop fc (hashStr key) 0 (baseDir fc) of
        Inl e \<Rightarrow> Inl e
      | Inr path \<Rightarrow> Inr (Join path key))"

subsection \<open>The constructor and the operations\<close>

text \<open>
  The constructor creates the base directory: the result is the cache or the error, and
  the storage after the call.
\<close>

definition NewFileCache ::
  "'b fsys \<Rightarrow> string \<Rightarrow> duration \<Rightarrow> (error + FileCache) \<times> 'b fsys" where
  "NewFileCache fs dir t =
     (case MkdirAll fs dir of
        Inl e \<Rightarrow> (Inl DirectoryCreationFailed, fs)
      | Inr fs' \<Rightarrow>
          (Inr \<lparr>baseDir = dir, ttl = t, dirLevels = 3, prefixLen = 2, purgeOnLoad = True\<rparr>,
           fs'))"

text \<open>
  \<^verbatim>\<open>SetWithTTL\<close> reads the clock twice: \<open>now1\<close> for the expiration, \<open>now2\<close> for the
  creation time. The result is the error (\<open>None\<close> for \<^verbatim>\<open>nil\<close>) and the storage after
  the call.
\<close>

definition SetWithTTL ::
  "'b codec \<Rightarrow> FileCache \<Rightarrow> 'b fsys \<Rightarrow> time \<Rightarrow> time \<Rightarrow> string \<Rightarrow> bytes \<Rightarrow> duration
     \<Rightarrow> error option \<times> 'b fsys" where
  "SetWithTTL js fc fs now1 now2 key data t =
     (let expireAt = now1 + t;
          item = \<lparr>Key = hasKey key, Data = data, ExpireAt = expireAt, Created = now2\<rparr>
      in case getFilePath fc key of
           Inl e \<Rightarrow> (Some e, fs)
         | Inr filePath \<Rightarrow>
             (case MkdirAll fs (Dir filePath) of
                Inl e \<Rightarrow> (Some DirectoryCreationFailed, fs)
              | Inr fs1 \<Rightarrow>
                  (case Marshal js item of
                     None \<Rightarrow> (Some SerializationFailed, fs1)
                   | Some jsonData \<Rightarrow>
                       (case WriteFile fs1 filePath jsonData of
                          Inl e \<Rightarrow> (Some WriteFailed, fs1)
                        | Inr fs' \<Rightarrow> (None, fs')))))"

definition Set ::
  "'b codec \<Rightarrow> FileCache \<Rightarrow> 'b fsys \<Rightarrow> time \<Rightarrow> time \<Rightarrow> string \<Rightarrow> bytes
     \<Rightarrow> error option \<times> 'b fsys" where
  "Set js fc fs now1 now2 key data = SetWithTTL js fc fs now1 now2 key data (ttl fc)"

definition Get ::
  "'b codec \<Rightarrow> FileCache \<Rightarrow> 'b fsys \<Rightarrow> time \<Rightarrow> string \<Rightarrow> (error + bytes) \<times> 'b fsys" where
  "Get js fc fs now key =
     (case getFilePath fc key of
        Inl e \<Rightarrow> (Inl e, fs)
      | Inr filePath \<Rightarrow>
          (case ReadFile fs filePath of
             Inl e \<Rightarrow> if IsNotExist e then (Inl NotFound, fs) else (Inl ReadFailed, fs)
           | Inr data \<Rightarrow>
               (case Unmarshal js data of
                  None \<Rightarrow> (Inl CorruptRecord, fs)
                | Some item \<Rightarrow>
                    if now > ExpireAt item
                    then (Inl Expired,
                          if purgeOnLoad fc then removeQuiet fs filePath else fs)
                    else (Inr (Data item), fs))))"

definition GetString ::
  "'b codec \<Rightarrow> FileCache \<Rightarrow> 'b fsys \<Rightarrow> time \<Rightarrow> string \<Rightarrow> (error + string) \<times> 'b fsys" where
  "GetString js fc fs now key =
     (case Get js fc fs now key of
        (Inl e, fs') \<Rightarrow> (Inl e, fs')
      | (Inr data, fs') \<Rightarrow> (Inr (map (\<lambda>b. char_of (unat b)) data), fs'))"

definition Exists ::
  "'b codec \<Rightarrow> FileCache \<Rightarrow> 'b fsys \<Rightarrow> time \<Rightarrow> string \<Rightarrow> bool \<times> 'b fsys" where
  "Exists js fc fs now key =
     (case getFilePath fc key of
        Inl e \<Rightarrow> (False, fs)
      | Inr filePath \<Rightarrow>
          (case Stat fs filePath of
             Some ErrNotExist \<Rightarrow> (False, fs)
           | _ \<Rightarrow>
               if purgeOnLoad fc then
                 (case Get js fc fs now key of
                    (Inl e, fs') \<Rightarrow> (False, fs')
                  | (Inr data, fs') \<Rightarrow> (True, fs'))
               else (True, fs)))"

definition Delete :: "FileCache \<Rightarrow> 'b fsys \<Rightarrow> string \<Rightarrow> error option \<times> 'b fsys" where
  "Delete fc fs key =
     (case getFilePath fc key of
        Inl e \<Rightarrow> (Some e, fs)
      | Inr filePath \<Rightarrow>
          (case Remove fs filePath of
             Inl e \<Rightarrow> if IsNotExist e then (Some NotFound, fs) else (Some DeleteFailed, fs)
           | Inr fs' \<Rightarrow> (None, fs')))"

text \<open>
  The callback of \<^verbatim>\<open>PurgeExpired\<close> on one regular file; \<open>clock path\<close> is the reading of
  \<^verbatim>\<open>time.Now()\<close> that the callback takes on that file.
\<close>

definition purgeVisit :: "'b codec \<Rightarrow> (string \<Rightarrow> time) \<Rightarrow> 'b fsys \<Rightarrow> string \<Rightarrow> 'b fsys" where
  "purgeVisit js clock fs path =
     (if Ext path \<noteq> ''.json'' then fs
      else case ReadFile fs path of
             Inl e \<Rightarrow> removeQuiet fs path
           | Inr data \<Rightarrow>
               (case Unmarshal js data of
                  None \<Rightarrow> removeQuiet fs path
                | Some item \<Rightarrow>
                    if clock path > ExpireAt item then removeQuiet fs path else fs))"

definition PurgeExpired ::
  "'b codec \<Rightarrow> FileCache \<Rightarrow> 'b fsys \<Rightarrow> (string \<Rightarrow> time) \<Rightarrow> error option \<times> 'b fsys" where
  "PurgeExpired js fc fs clock =
     (None, foldl (purgeVisit js clock) fs (walkFiles fs (baseDir fc)))"

text \<open>
  The callback of \<^verbatim>\<open>ListKeys\<close> on the files of the walk, with the keys collected so
  far. The sum \<^verbatim>\<open>fc.dirLevels+1\<close> wraps around at the largest 64-bit integer. The
  index \<^verbatim>\<open>parts[fc.dirLevels]\<close> is in range after the length test unless
  \<open>dirLevels\<close> is negative or the sum has wrapped, where Go panics.
\<close>

fun listVisit :: "FileCache \<Rightarrow> string list \<Rightarrow> string list \<Rightarrow> error + string list" where
  "listVisit fc [] keys = Inr keys"
| "listVisit fc (path # rest) keys =
     (if Ext path \<noteq> ''.json'' then listVisit fc rest keys
      else
        (let parts = relParts (baseDir fc) path;
             bound = (if dirLevels fc = 9223372036854775807 then - 9223372036854775808
                      else dirLevels fc + 1)
         in if int (length parts) < bound then listVisit fc rest keys
            else if dirLevels fc < 0 \<or> int (length parts) \<le> dirLevels fc
              then Inl SliceBoundsPanic
            else listVisit fc rest
                   (keys @ [TrimSuffix (parts ! nat (dirLevels fc)) ''.json''])))"

definition ListKeys :: "FileCache \<Rightarrow> 'b fsys \<Rightarrow> error + string list" where
  "ListKeys fc fs = listVisit fc (walkFiles fs (baseDir fc)) []"

subsection \<open>Notions used in the statements\<close>

text \<open>
  \<open>plainSeg\<close>: a string that is one path element, namely not empty, without a separator,
  and neither \<^verbatim>\<open>.\<close> nor \<^verbatim>\<open>..\<close>. \<open>keyOK\<close> asks the same of a key but for
  non-emptiness. \<open>nf\<close>: the element list of a cleaned path, where \<^verbatim>\<open>..\<close> stands
  only in front of a relative path.
\<close>

definition segOK :: "string \<Rightarrow> bool" where
  "segOK s = (s \<noteq> [] \<and> s \<noteq> ''.'' \<and> CHR ''/'' \<notin> set s)"

definition plainSeg :: "string \<Rightarrow> bool" where
  "plainSeg s = (segOK s \<and> s \<noteq> ''..'')"

definition keyOK :: "string \<Rightarrow> bool" where
  "keyOK key = (CHR ''/'' \<notin> set key \<and> key \<noteq> ''.'' \<and> key \<noteq> ''..'')"

definition nf :: "bool \<Rightarrow> string list \<Rightarrow> bool" where
  "nf r st = ((\<forall>s\<in>set st. segOK s) \<and>
     (if r then ''..'' \<notin> set st else ''..'' \<notin> set (dropWhile (\<lambda>s. s = ''..'') st)))"

definition hexChar :: "char \<Rightarrow> bool" where
  "hexChar c = (c \<in> set ''0123456789abcdef'')"

text \<open>
  With three levels of two characters, the \<open>i\<close>-th shard directory name and the
  directory the record of a key is put in.
\<close>

definition chunk :: "string \<Rightarrow> nat \<Rightarrow> string" where
  "chunk key i = take 2 (drop (2 * i) (hashStr key))"

definition shardDir :: "FileCache \<Rightarrow> string \<Rightarrow> string" where
  "shardDir fc key = Join (Join (Join (baseDir fc) (chunk key 0)) (chunk key 1)) (chunk key 2)"

subsection \<open>Example inputs\<close>

text \<open>
  A cache as \<^verbatim>\<open>NewFileCache("/tmp/my_cache", time.Second)\<close> returns it; a storage
  where nothing exists yet and the operating system refuses nothing; the storage after the
  constructor has run on it; and storages holding one record, one unparsable file, the
  shard directory of that record without the file, the two records of the purge test of
  \<^verbatim>\<open>cache_test.go\<close>, and three records.
\<close>

definition exampleCache :: FileCache where
  "exampleCache = \<lparr>baseDir = ''/tmp/my_cache'', ttl = 1000000000, dirLevels = 3, prefixLen = 2,
     purgeOnLoad = True\<rparr>"

definition emptyStorage :: "CacheItem option fsys" where
  "emptyStorage = \<lparr>files = [], dirs = [], denied = (\<lambda>op p. False)\<rparr>"

definition baseDirs :: "string list" where
  "baseDirs = [''/'', ''/tmp'', ''/tmp/my_cache'']"

definition freshStorage :: "CacheItem option fsys" where
  "freshStorage = emptyStorage\<lparr>dirs := baseDirs\<rparr>"

definition fooDirs :: "string list" where
  "fooDirs = baseDirs @
     [''/tmp/my_cache/2c'', ''/tmp/my_cache/2c/26'', ''/tmp/my_cache/2c/26/b4'']"

definition fooItem :: CacheItem where
  "fooItem = \<lparr>Key = ''foo'', Data = [0, 255, 10], ExpireAt = 100, Created = 10\<rparr>"

definition fooStorage :: "CacheItem option fsys" where
  "fooStorage =
     emptyStorage\<lparr>files := [(''/tmp/my_cache/2c/26/b4/foo'', Some fooItem)], dirs := fooDirs\<rparr>"

definition corruptStorage :: "CacheItem option fsys" where
  "corruptStorage =
     emptyStorage\<lparr>files := [(''/tmp/my_cache/2c/26/b4/foo'', None)], dirs := fooDirs\<rparr>"

definition purgedStorage :: "CacheItem option fsys" where
  "purgedStorage = emptyStorage\<lparr>dirs := fooDirs\<rparr>"

definition data1 :: bytes where
  "data1 = [100, 97, 116, 97, 49]"

definition data2 :: bytes where
  "data2 = [100, 97, 116, 97, 50]"

definition testStorage :: "CacheItem option fsys" where
  "testStorage =
     snd (SetWithTTL recordCodec exampleCache
            (snd (SetWithTTL recordCodec exampleCache emptyStorage 0 0 ''expired1'' data1 1000000))
            0 0 ''valid1'' data2 60000000000)"

definition threeKeys :: "CacheItem option fsys" where
  "threeKeys =
     snd (Set recordCodec exampleCache
       (snd (Set recordCodec exampleCache
         (snd (Set recordCodec exampleCache emptyStorage 0 0 ''foo'' data1))
         0 0 ''expired1'' data1))
       0 0 ''valid1'' data1)"

section \<open>Splitting, joining and cleaning paths\<close>

lemma splitSep_nonempty: "splitSep p \<noteq> []"
  by (induction p) (auto split: list.splits)

lemma splitSep_noslash: "s \<in> set (splitSep p) \<Longrightarrow> CHR ''/'' \<notin> set s"
  by (induction p arbitrary: s) (auto split: list.splits if_splits)

lemma splitSep_single: "CHR ''/'' \<notin> set s \<Longrightarrow> splitSep s = [s]"
  by (induction s) auto

lemma splitSep_append: "splitSep (s @ CHR ''/'' # t) = splitSep s @ splitSep t"
  using splitSep_nonempty by (induction s) (auto split: list.splits)

lemma joinSep_snoc: "st \<noteq> [] \<Longrightarrow> joinSep (st @ [k]) = joinSep st @ CHR ''/'' # k"
  by (induction st rule: joinSep.induct) auto

lemma splitSep_joinSep:
  "st \<noteq> [] \<Longrightarrow> \<forall>s\<in>set st. CHR ''/'' \<notin> set s \<Longrightarrow> splitSep (joinSep st) = st"
proof (induction st rule: joinSep.induct)
  case 1
  then show ?case by simp
next
  case (2 s)
  then show ?case by (simp add: splitSep_single)
next
  case (3 s t ss)
  then show ?case by (simp add: splitSep_append splitSep_single)
qed

lemma nf_Nil: "nf r []"
  by (simp add: nf_def)

lemma set_dropWhile_butlast:
  "x \<in> set (dropWhile P (butlast st)) \<Longrightarrow> x \<in> set (dropWhile P st)"
  by (induction st) (auto split: if_splits dest: in_set_butlastD)

lemma nf_butlast: "nf r st \<Longrightarrow> nf r (butlast st)"
  unfolding nf_def
  by (auto dest: in_set_butlastD set_dropWhile_butlast split: if_splits)

lemma nf_all_dotdot:
  "nf False st \<Longrightarrow> st \<noteq> [] \<Longrightarrow> last st = ''..'' \<Longrightarrow> \<forall>s\<in>set st. s = ''..''"
proof (rule ccontr)
  assume a: "nf False st" "st \<noteq> []" "last st = ''..''" and n: "\<not> (\<forall>s\<in>set st. s = ''..'')"
  from n obtain x where x: "x \<in> set st" "x \<noteq> ''..''" by blast
  have ne: "dropWhile (\<lambda>s. s = ''..'') st \<noteq> []"
    using x by (auto simp: dropWhile_eq_Nil_conv)
  have "last (dropWhile (\<lambda>s. s = ''..'') st) = last st"
    using x by (intro dropWhile_last) auto
  then have "''..'' \<in> set (dropWhile (\<lambda>s. s = ''..'') st)"
    using ne a(3) last_in_set by metis
  with a(1) show False by (simp add: nf_def)
qed

lemma nf_snoc_plain: "nf r st \<Longrightarrow> plainSeg k \<Longrightarrow> nf r (st @ [k])"
  unfolding nf_def plainSeg_def
  by (auto simp: dropWhile_append split: if_splits)

lemma nf_snoc_dotdot:
  "nf False st \<Longrightarrow> st = [] \<or> last st = ''..'' \<Longrightarrow> nf False (st @ [''..''])"
proof -
  assume a: "nf False st" and b: "st = [] \<or> last st = ''..''"
  have all: "\<forall>s\<in>set st. s = ''..''"
    using a b nf_all_dotdot by (cases "st = []") auto
  have "segOK ''..''" by (simp add: segOK_def)
  with a all show ?thesis
    unfolding nf_def by (auto simp: dropWhile_append)
qed

lemma nf_cleanStep: "nf r out \<Longrightarrow> CHR ''/'' \<notin> set seg \<Longrightarrow> nf r (cleanStep r out seg)"
proof -
  assume a: "nf r out" and b: "CHR ''/'' \<notin> set seg"
  consider (skip) "seg = [] \<or> seg = ''.''" | (up) "seg = ''..''" | (plain) "plainSeg seg"
    using b by (auto simp: plainSeg_def segOK_def)
  then show ?thesis
  proof cases
    case skip
    with a show ?thesis by (auto simp: cleanStep_def)
  next
    case up
    show ?thesis
    proof (cases "out \<noteq> [] \<and> last out \<noteq> ''..''")
      case True
      with a up show ?thesis by (simp add: cleanStep_def nf_butlast)
    next
      case False
      show ?thesis
      proof (cases r)
        case True
        with a up False show ?thesis by (auto simp: cleanStep_def)
      next
        case nr: False
        with a False have "nf False (out @ [''..''])"
          by (intro nf_snoc_dotdot) auto
        with up False nr show ?thesis by (auto simp: cleanStep_def)
      qed
    qed
  next
    case plain
    then have "cleanStep r out seg = out @ [seg]"
      by (auto simp: cleanStep_def plainSeg_def segOK_def)
    with a plain show ?thesis by (simp add: nf_snoc_plain)
  qed
qed

lemma nf_foldl:
  "nf r acc \<Longrightarrow> \<forall>s\<in>set xs. CHR ''/'' \<notin> set s \<Longrightarrow> nf r (foldl (cleanStep r) acc xs)"
  by (induction xs arbitrary: acc) (auto simp: nf_cleanStep)

lemma nf_pathSegs: "nf (isRooted p) (pathSegs p)"
  unfolding pathSegs_def by (rule nf_foldl) (auto simp: nf_Nil splitSep_noslash)

text \<open>A cleaned element list is a fixed point of the cleaning.\<close>

lemma cleanStep_nf_snoc:
  "nf r (st @ [s]) \<Longrightarrow> cleanStep r st s = st @ [s]"
proof -
  assume a: "nf r (st @ [s])"
  then have ok: "segOK s" by (simp add: nf_def)
  show ?thesis
  proof (cases "s = ''..''")
    case False
    with ok show ?thesis by (auto simp: cleanStep_def segOK_def)
  next
    case True
    have nr: "\<not> r" using a True by (auto simp: nf_def)
    have "\<forall>x\<in>set (st @ [s]). x = ''..''"
      using a nr True nf_all_dotdot [of "st @ [s]"] by simp
    then have "st = [] \<or> last st = ''..''" by (cases "st = []") auto
    with nr True show ?thesis by (auto simp: cleanStep_def)
  qed
qed

lemma nf_prefix: "nf r (st @ [s]) \<Longrightarrow> nf r st"
  using nf_butlast [of r "st @ [s]"] by simp

lemma foldl_cleanStep_nf: "nf r st \<Longrightarrow> foldl (cleanStep r) [] st = st"
proof (induction st rule: rev_induct)
  case Nil
  then show ?case by simp
next
  case (snoc s st)
  then show ?case by (simp add: cleanStep_nf_snoc nf_prefix)
qed

lemma cleanStep_skip [simp]: "cleanStep r out [] = out" "cleanStep r out ''.'' = out"
  by (simp_all add: cleanStep_def)

lemma nf_noslash: "nf r st \<Longrightarrow> \<forall>s\<in>set st. CHR ''/'' \<notin> set s"
  by (simp add: nf_def segOK_def)

lemma hd_noslash: "s \<noteq> [] \<Longrightarrow> CHR ''/'' \<notin> set s \<Longrightarrow> hd s \<noteq> CHR ''/''"
  by (cases s) auto

lemma hd_joinSep:
  "\<forall>s\<in>set st. s \<noteq> [] \<and> CHR ''/'' \<notin> set s \<Longrightarrow> st \<noteq> [] \<Longrightarrow>
   joinSep st \<noteq> [] \<and> hd (joinSep st) \<noteq> CHR ''/''"
proof (induction st rule: joinSep.induct)
  case 1
  then show ?case by simp
next
  case (2 s)
  then show ?case by (simp add: hd_noslash)
next
  case (3 s t ss)
  then show ?case by (simp add: hd_append hd_noslash)
qed

lemma hd_joinSep_nf: "nf r st \<Longrightarrow> st \<noteq> [] \<Longrightarrow> joinSep st \<noteq> [] \<and> hd (joinSep st) \<noteq> CHR ''/''"
  by (rule hd_joinSep) (auto simp: nf_def segOK_def)

lemma isRooted_render: "nf r st \<Longrightarrow> isRooted (render r st) = r"
  using hd_joinSep_nf [of r st] by (auto simp: render_def isRooted_def)

lemma pathSegs_render: "nf r st \<Longrightarrow> pathSegs (render r st) = st"
proof -
  assume a: "nf r st"
  have rt: "isRooted (render r st) = r" using a by (rule isRooted_render)
  show ?thesis
  proof (cases "st = []")
    case True
    then show ?thesis by (simp add: pathSegs_def rt) (simp add: render_def)
  next
    case False
    have sp: "splitSep (joinSep st) = st"
      using False a nf_noslash by (intro splitSep_joinSep) auto
    have "pathSegs (render r st) = foldl (cleanStep r) [] (splitSep (render r st))"
      by (simp add: pathSegs_def rt)
    also have "\<dots> = foldl (cleanStep r) [] st"
      using False sp by (cases r) (simp_all add: render_def)
    finally show ?thesis using a by (simp add: foldl_cleanStep_nf)
  qed
qed

lemma isRooted_Clean [simp]: "isRooted (Clean p) = isRooted p"
  by (simp add: Clean_def isRooted_render nf_pathSegs)

lemma pathSegs_Clean [simp]: "pathSegs (Clean p) = pathSegs p"
  by (simp add: Clean_def pathSegs_render nf_pathSegs)

lemma Clean_idem: "Clean (Clean p) = Clean p"
  by (simp add: Clean_def [of "Clean p"]) (simp add: Clean_def)

lemma isRooted_snoc: "a \<noteq> [] \<Longrightarrow> isRooted (a @ b) = isRooted a"
  by (simp add: isRooted_def)

lemma pathSegs_snoc_seg:
  "a \<noteq> [] \<Longrightarrow> CHR ''/'' \<notin> set k \<Longrightarrow>
   pathSegs (a @ CHR ''/'' # k) = cleanStep (isRooted a) (pathSegs a) k"
  by (simp add: pathSegs_def isRooted_snoc splitSep_append splitSep_single)

lemma cleanStep_plain: "plainSeg k \<Longrightarrow> cleanStep r out k = out @ [k]"
  by (auto simp: cleanStep_def plainSeg_def segOK_def)

lemma pathSegs_plain: "plainSeg k \<Longrightarrow> pathSegs k = [k]"
  by (simp add: pathSegs_def splitSep_single plainSeg_def segOK_def cleanStep_plain)

lemma isRooted_plain: "plainSeg k \<Longrightarrow> \<not> isRooted k"
  by (cases k) (auto simp: isRooted_def plainSeg_def segOK_def)

lemma pathSegs_Nil [simp]: "pathSegs [] = []"
  by (simp add: pathSegs_def)

lemma isRooted_Nil [simp]: "\<not> isRooted []"
  by (simp add: isRooted_def)

lemma pathSegs_Join_plain: "plainSeg k \<Longrightarrow> pathSegs (Join a k) = pathSegs a @ [k]"
  by (cases "a = []")
     (auto simp: Join_def pathSegs_snoc_seg cleanStep_plain pathSegs_plain plainSeg_def segOK_def)

lemma isRooted_Join_plain: "plainSeg k \<Longrightarrow> isRooted (Join a k) = isRooted a"
  by (cases "a = []")
     (auto simp: Join_def isRooted_snoc isRooted_plain plainSeg_def segOK_def)

lemma Join_Nil_right: "Join a [] = (if a = [] then [] else Clean a)"
proof (cases "a = []")
  case True
  then show ?thesis by (simp add: Join_def)
next
  case False
  have "pathSegs (a @ ''/'') = pathSegs a"
    using False pathSegs_snoc_seg [of a "[]"] by simp
  with False show ?thesis by (simp add: Join_def Clean_def isRooted_snoc)
qed

lemma render_snoc: "st \<noteq> [] \<Longrightarrow> render r (st @ [k]) = render r st @ CHR ''/'' # k"
  by (simp add: render_def joinSep_snoc)

lemma Join_plain_string:
  "plainSeg k \<Longrightarrow> Clean d = d \<Longrightarrow> pathSegs d \<noteq> [] \<Longrightarrow> Join d k = d @ CHR ''/'' # k"
proof -
  assume k: "plainSeg k" and d: "Clean d = d" and ne: "pathSegs d \<noteq> []"
  have dne: "d \<noteq> []" using ne by auto
  have "Join d k = render (isRooted d) (pathSegs d @ [k])"
    using k dne by (simp add: Join_def Clean_def isRooted_snoc pathSegs_snoc_seg cleanStep_plain
        plainSeg_def segOK_def)
  also have "\<dots> = render (isRooted d) (pathSegs d) @ CHR ''/'' # k"
    using ne by (rule render_snoc)
  also have "render (isRooted d) (pathSegs d) = d"
    using d by (simp add: Clean_def)
  finally show ?thesis .
qed

lemma Clean_Join_plain: "plainSeg k \<Longrightarrow> Clean (Join a k) = Join a k"
  by (cases "a = []") (auto simp: Join_def Clean_idem plainSeg_def segOK_def)

section \<open>The digest: 64 lower-case hexadecimal characters\<close>

lemma length_rounds: "length (rounds ks ws st) = length st"
  by (induction ks ws st rule: rounds.induct) (simp_all add: Let_def)

lemma length_block: "length st = 8 \<Longrightarrow> length (block st bs) = 8"
  by (simp add: block_def length_rounds)

lemma length_blocks: "length st = 8 \<Longrightarrow> length (blocks n st bs) = 8"
  by (induction n arbitrary: st bs) (simp_all add: length_block)

lemma length_bytes32s: "length (concat (map bytes32 ws)) = 4 * length ws"
  by (induction ws) (simp_all add: bytes32_def)

lemma length_Sum256: "length (Sum256 m) = 32"
proof -
  have "length (blocks (length (pad m) div 64) H0 (pad m)) = 8"
    by (rule length_blocks) (simp add: H0_def)
  then show ?thesis
    by (simp add: Sum256_def Let_def length_bytes32s)
qed

lemma length_EncodeToString: "length (EncodeToString bs) = 2 * length bs"
  unfolding EncodeToString_def by (induction bs) simp_all

lemma length_hashStr: "length (hashStr key) = 64"
  by (simp add: hashStr_def length_EncodeToString length_Sum256)

lemma hexdigit_hex: "n < 16 \<Longrightarrow> hexChar (hexdigit n)"
proof -
  assume "n < 16"
  then have "n \<in> set [0..<16]" by simp
  then show ?thesis
    unfolding hexChar_def hexdigit_def
    by (simp add: upt_rec numeral_eq_Suc) auto
qed

lemma hi_nibble: "unat (drop_bit 4 (b :: 8 word)) < 16"
proof -
  have "unat b < 256" using unsigned_less [of b, where 'a = nat] by simp
  then have "unat b div 16 < 16" by simp
  then show ?thesis by (simp add: drop_bit_eq_div unat_div)
qed

lemma lo_nibble: "unat ((b :: 8 word) AND 15) < 16"
proof -
  have "unat (b AND 15) \<le> unat (15 :: 8 word)"
    by (rule word_and_le1 [THEN word_le_nat_alt [THEN iffD1]])
  then show ?thesis by simp
qed

lemma hex_EncodeToString: "c \<in> set (EncodeToString bs) \<Longrightarrow> hexChar c"
  unfolding EncodeToString_def by (auto simp: hexdigit_hex hi_nibble lo_nibble)

lemma hex_hashStr: "c \<in> set (hashStr key) \<Longrightarrow> hexChar c"
  unfolding hashStr_def by (rule hex_EncodeToString)

text \<open>The digests of the keys of the examples, computed from the definition.\<close>

lemma digest_foo:
  "EncodeToString (Sum256 (map of_char ''foo'')) =
     ''2c26b46b68ffc68ff99b453c1d30413413422d706483bfa0f98a5e886266e7ae''"
  by code_simp

lemma digest_expired1:
  "EncodeToString (Sum256 (map of_char ''expired1'')) =
     ''6bf49e32ef2797d9ccd24f00e7d48d52cbe1bbe63e11bd271850dd95c751706a''"
  by code_simp

lemma digest_valid1:
  "EncodeToString (Sum256 (map of_char ''valid1'')) =
     ''c04fddcd8c9884d946ef4070e57abd334eda6b2c34474e9599800a6dafaef51e''"
  by code_simp

lemma digest_dotdot:
  "EncodeToString (Sum256 (map of_char ''..'')) =
     ''5ec1f7e700f37c3d0b2981d04855fc34b94aaa15457b05ca571817442d228f81''"
  by code_simp

lemma hasKey_examples:
  "hasKey ''foo'' = ''foo''"
  "hasKey ''foo_info.json'' = ''foo''"
  "hasKey ''foo_toc.json'' = ''foo''"
  "hasKey ''expired1'' = ''expired1''"
  "hasKey ''valid1'' = ''valid1''"
  "hasKey ''..'' = ''..''"
  "hasKey ''a_info.jsonb'' = ''ab''"
  by (simp_all add: hasKey_def ReplaceAll.simps HasPrefix_def)

lemma hashStr_examples:
  "hashStr ''foo'' = ''2c26b46b68ffc68ff99b453c1d30413413422d706483bfa0f98a5e886266e7ae''"
  "hashStr ''foo_info.json'' = ''2c26b46b68ffc68ff99b453c1d30413413422d706483bfa0f98a5e886266e7ae''"
  "hashStr ''foo_toc.json'' = ''2c26b46b68ffc68ff99b453c1d30413413422d706483bfa0f98a5e886266e7ae''"
  "hashStr ''expired1'' = ''6bf49e32ef2797d9ccd24f00e7d48d52cbe1bbe63e11bd271850dd95c751706a''"
  "hashStr ''valid1'' = ''c04fddcd8c9884d946ef4070e57abd334eda6b2c34474e9599800a6dafaef51e''"
  "hashStr ''..'' = ''5ec1f7e700f37c3d0b2981d04855fc34b94aaa15457b05ca571817442d228f81''"
  by (simp_all only: hashStr_def hasKey_examples digest_foo digest_expired1 digest_valid1
      digest_dotdot)

section \<open>Path resolution\<close>

lemma hexChar_plain: "hexChar c \<Longrightarrow> c \<noteq> CHR ''/'' \<and> c \<noteq> CHR ''.''"
  by (auto simp: hexChar_def)

lemma length_chunk: "i < 32 \<Longrightarrow> length (chunk key i) = 2"
  by (simp add: chunk_def length_hashStr)

lemma hex_chunk: "c \<in> set (chunk key i) \<Longrightarrow> hexChar c"
  unfolding chunk_def by (auto dest!: in_set_takeD in_set_dropD hex_hashStr)

lemma plainSeg_chunk: "i < 32 \<Longrightarrow> plainSeg (chunk key i)"
proof -
  assume i: "i < 32"
  obtain a b where ab: "chunk key i = [a, b]"
    using length_chunk [OF i, of key]
    by (metis (no_types, opaque_lifting) One_nat_def Suc_1 length_0_conv length_Suc_conv)
  have "hexChar a" "hexChar b" using hex_chunk [of a key i] hex_chunk [of b key i] ab by auto
  then show ?thesis
    using ab hexChar_plain [of a] hexChar_plain [of b]
    by (auto simp: plainSeg_def segOK_def)
qed

lemma shardLoop_std:
  "dirLevels fc = 3 \<Longrightarrow> prefixLen fc = 2 \<Longrightarrow>
   shardLoop fc (hashStr key) 0 (baseDir fc) = Inr (shardDir fc key)"
  by (simp add: shardLoop.simps [of fc _ 0] shardLoop.simps [of fc _ 1]
      shardLoop.simps [of fc _ 2] shardLoop.simps [of fc _ 3]
      length_hashStr shardDir_def chunk_def substr_def)

lemma getFilePath_std:
  "dirLevels fc = 3 \<Longrightarrow> prefixLen fc = 2 \<Longrightarrow> getFilePath fc key = Inr (Join (shardDir fc key) key)"
  by (simp add: getFilePath_def shardLoop_std)

lemma pathSegs_shardDir:
  "pathSegs (shardDir fc key) = pathSegs (baseDir fc) @ [chunk key 0, chunk key 1, chunk key 2]"
  by (simp add: shardDir_def pathSegs_Join_plain plainSeg_chunk)

lemma isRooted_shardDir: "isRooted (shardDir fc key) = isRooted (baseDir fc)"
  by (simp add: shardDir_def isRooted_Join_plain plainSeg_chunk)

lemma Clean_shardDir: "Clean (shardDir fc key) = shardDir fc key"
  by (simp add: shardDir_def Clean_Join_plain plainSeg_chunk)

lemma Join_shardDir_plain:
  "plainSeg key \<Longrightarrow> Join (shardDir fc key') key = shardDir fc key' @ CHR ''/'' # key"
  by (rule Join_plain_string) (simp_all add: Clean_shardDir pathSegs_shardDir)

lemma keyOK_cases: "keyOK key \<Longrightarrow> key = [] \<or> plainSeg key"
  by (auto simp: keyOK_def plainSeg_def segOK_def)

lemma pathSegs_Join_shardDir:
  "keyOK key \<Longrightarrow>
   pathSegs (Join (shardDir fc key) key) =
     pathSegs (baseDir fc) @ [chunk key 0, chunk key 1, chunk key 2] @ (if key = [] then [] else [key])"
proof -
  assume "keyOK key"
  then consider "key = []" | "plainSeg key" "key \<noteq> []"
    using keyOK_cases by (auto simp: plainSeg_def segOK_def)
  then show ?thesis
  proof cases
    case 1
    have "shardDir fc key \<noteq> []" using pathSegs_shardDir [of fc key] by auto
    with 1 show ?thesis by (simp add: Join_Nil_right pathSegs_shardDir)
  next
    case 2
    then show ?thesis by (simp add: pathSegs_Join_plain pathSegs_shardDir)
  qed
qed

lemma paths_distinct:
  assumes "keyOK k1" "keyOK k2" "k1 \<noteq> k2"
  shows "Join (shardDir fc k1) k1 \<noteq> Join (shardDir fc k2) k2"
proof
  assume "Join (shardDir fc k1) k1 = Join (shardDir fc k2) k2"
  then have "pathSegs (Join (shardDir fc k1) k1) = pathSegs (Join (shardDir fc k2) k2)"
    by simp
  then show False
    using assms by (auto simp: pathSegs_Join_shardDir split: if_splits)
qed

text \<open>
  With non-negative parameters the loop fails only with \<open>InvalidConfiguration\<close>, and
  does so exactly when the levels ask for more characters than the digest has.
\<close>

lemma shardLoop_invalid:
  "0 \<le> prefixLen fc \<Longrightarrow> 0 \<le> i \<Longrightarrow>
   (shardLoop fc h i path = Inl InvalidConfiguration \<longleftrightarrow>
      i < dirLevels fc \<and> dirLevels fc * prefixLen fc > int (length h)) \<and>
   shardLoop fc h i path \<noteq> Inl SliceBoundsPanic \<and>
   (\<forall>e. shardLoop fc h i path = Inl e \<longrightarrow> e = InvalidConfiguration)"
proof (induction fc h i path rule: shardLoop.induct)
  case (1 fc h i path)
  show ?case
  proof (cases "i < dirLevels fc")
    case False
    then show ?thesis by (simp add: shardLoop.simps [of fc h i path])
  next
    case True
    show ?thesis
    proof (cases "(i + 1) * prefixLen fc > int (length h)")
      case big: True
      have "(i + 1) * prefixLen fc \<le> dirLevels fc * prefixLen fc"
        using True "1.prems" by (intro mult_right_mono) auto
      with big True show ?thesis
        by (simp add: shardLoop.simps [of fc h i path] Let_def algebra_simps)
    next
      case small: False
      have nn: "0 \<le> i * prefixLen fc" using "1.prems" by simp
      have ih: "(shardLoop fc h (i + 1) (Join path (substr h (i * prefixLen fc) (i * prefixLen fc + prefixLen fc))) = Inl InvalidConfiguration \<longleftrightarrow>
          i + 1 < dirLevels fc \<and> dirLevels fc * prefixLen fc > int (length h)) \<and>
        shardLoop fc h (i + 1) (Join path (substr h (i * prefixLen fc) (i * prefixLen fc + prefixLen fc))) \<noteq> Inl SliceBoundsPanic \<and>
        (\<forall>e. shardLoop fc h (i + 1) (Join path (substr h (i * prefixLen fc) (i * prefixLen fc + prefixLen fc))) = Inl e \<longrightarrow> e = InvalidConfiguration)"
        using "1.IH" [OF True refl refl] small nn "1.prems" by (simp add: algebra_simps)
      have last: "\<not> i + 1 < dirLevels fc \<Longrightarrow> \<not> dirLevels fc * prefixLen fc > int (length h)"
      proof -
        assume "\<not> i + 1 < dirLevels fc"
        with True have "dirLevels fc = i + 1" by simp
        with small show ?thesis by simp
      qed
      show ?thesis
        using True small nn "1.prems" ih last
        by (auto simp: shardLoop.simps [of fc h i path] Let_def algebra_simps mult_less_0_iff)
    qed
  qed
qed

lemma NewFileCache_std:
  "fst (NewFileCache fs dir t) = Inr fc \<Longrightarrow>
   dirLevels fc = 3 \<and> prefixLen fc = 2 \<and> purgeOnLoad fc \<and> baseDir fc = dir \<and> ttl fc = t"
  by (auto simp: NewFileCache_def split: sum.splits)

section \<open>The storage and the operations\<close>

lemma fileAt_update:
  "fileAt (fs\<lparr>files := AList.update p b (files fs)\<rparr>) q = (if q = p then Some b else fileAt fs q)"
  by (simp add: fileAt_def update_conv')

lemma fileAt_delete:
  "fileAt (fs\<lparr>files := AList.delete p (files fs)\<rparr>) q = (if q = p then None else fileAt fs q)"
  by (simp add: fileAt_def delete_conv')

lemma fileAt_dirs [simp]: "fileAt (fs\<lparr>dirs := ds\<rparr>) q = fileAt fs q"
  by (simp add: fileAt_def)

lemma MkdirAll_Inr:
  "MkdirAll fs p = Inr fs1 \<Longrightarrow> files fs1 = files fs \<and> denied fs1 = denied fs"
  by (auto simp: MkdirAll_def split: if_splits)

lemma fileAt_MkdirAll: "MkdirAll fs p = Inr fs1 \<Longrightarrow> fileAt fs1 q = fileAt fs q"
  by (simp add: fileAt_def MkdirAll_Inr)

lemma WriteFile_Inr:
  "WriteFile fs p b = Inr fs' \<Longrightarrow> fs' = fs\<lparr>files := AList.update p b (files fs)\<rparr>"
  by (auto simp: WriteFile_def split: if_splits)

lemma fileAt_WriteFile:
  "WriteFile fs p b = Inr fs' \<Longrightarrow> fileAt fs' q = (if q = p then Some b else fileAt fs q)"
  by (auto dest!: WriteFile_Inr simp: fileAt_update)

lemma fileAt_removeQuiet:
  "fileAt (removeQuiet fs p) q =
     (if q = p \<and> \<not> denied fs OpRemove p then None else fileAt fs q)"
  by (auto simp: removeQuiet_def Remove_def fileAt_delete split: option.splits)

lemma removeQuiet_denied: "denied fs OpRemove p \<Longrightarrow> removeQuiet fs p = fs"
  by (simp add: removeQuiet_def Remove_def)

lemma removeQuiet_file:
  "fileAt fs p = Some b \<Longrightarrow> \<not> denied fs OpRemove p \<Longrightarrow>
   removeQuiet fs p = fs\<lparr>files := AList.delete p (files fs)\<rparr>"
  by (simp add: removeQuiet_def Remove_def)

lemma SetWithTTL_success:
  "SetWithTTL js fc fs now1 now2 key data t = (None, fs') \<Longrightarrow>
   \<exists>p b. getFilePath fc key = Inr p \<and>
     Marshal js \<lparr>Key = hasKey key, Data = data, ExpireAt = now1 + t, Created = now2\<rparr> = Some b \<and>
     fileAt fs' p = Some b \<and> denied fs' = denied fs"
  by (auto simp: SetWithTTL_def Let_def fileAt_def update_conv'
      dest!: MkdirAll_Inr WriteFile_Inr split: sum.splits option.splits)

lemma SetWithTTL_frame:
  "getFilePath fc key = Inr p \<Longrightarrow> q \<noteq> p \<Longrightarrow>
   fileAt (snd (SetWithTTL js fc fs now1 now2 key data t)) q = fileAt fs q"
  by (auto simp: SetWithTTL_def Let_def fileAt_MkdirAll fileAt_WriteFile
      split: sum.splits option.splits)

lemma Get_frame:
  "getFilePath fc key = Inr p \<Longrightarrow> q \<noteq> p \<Longrightarrow>
   fileAt (snd (Get js fc fs now key)) q = fileAt fs q"
  by (auto simp: Get_def fileAt_removeQuiet split: sum.splits option.splits if_splits)

lemma Exists_frame:
  "getFilePath fc key = Inr p \<Longrightarrow> q \<noteq> p \<Longrightarrow>
   fileAt (snd (Exists js fc fs now key)) q = fileAt fs q"
  using Get_frame [of fc key p q js fs now]
  by (auto simp: Exists_def split: sum.splits option.splits if_splits oserror.splits prod.splits)

lemma Delete_frame:
  "getFilePath fc key = Inr p \<Longrightarrow> q \<noteq> p \<Longrightarrow>
   fileAt (snd (Delete fc fs key)) q = fileAt fs q"
  by (auto simp: Delete_def Remove_def fileAt_delete split: sum.splits option.splits if_splits)

text \<open>What \<^verbatim>\<open>ioutil.ReadFile\<close> answers, in terms of the storage.\<close>

lemma ReadFile_nothing:
  "\<not> denied fs OpRead p \<Longrightarrow> fileAt fs p = None \<Longrightarrow> \<not> isDir fs p \<Longrightarrow> \<not> throughFile fs p \<Longrightarrow>
   ReadFile fs p = Inl ErrNotExist"
  by (simp add: ReadFile_def)

lemma ReadFile_unreadable:
  "denied fs OpRead p \<or> (fileAt fs p = None \<and> (isDir fs p \<or> throughFile fs p)) \<Longrightarrow>
   ReadFile fs p = Inl ErrOther"
  by (auto simp: ReadFile_def)

lemma ReadFile_file:
  "\<not> denied fs OpRead p \<Longrightarrow> fileAt fs p = Some b \<Longrightarrow> ReadFile fs p = Inr b"
  by (simp add: ReadFile_def)

lemma Get_absent:
  "getFilePath fc key = Inr p \<Longrightarrow> ReadFile fs p = Inl ErrNotExist \<Longrightarrow>
   Get js fc fs now key = (Inl NotFound, fs)"
  by (simp add: Get_def IsNotExist_def)

lemma Get_unreadable:
  "getFilePath fc key = Inr p \<Longrightarrow> ReadFile fs p = Inl ErrOther \<Longrightarrow>
   Get js fc fs now key = (Inl ReadFailed, fs)"
  by (simp add: Get_def IsNotExist_def)

lemma Get_corrupt:
  "getFilePath fc key = Inr p \<Longrightarrow> ReadFile fs p = Inr b \<Longrightarrow> Unmarshal js b = None \<Longrightarrow>
   Get js fc fs now key = (Inl CorruptRecord, fs)"
  by (simp add: Get_def)

lemma Get_expired:
  "getFilePath fc key = Inr p \<Longrightarrow> ReadFile fs p = Inr b \<Longrightarrow> Unmarshal js b = Some item \<Longrightarrow>
   now > ExpireAt item \<Longrightarrow>
   Get js fc fs now key = (Inl Expired, if purgeOnLoad fc then removeQuiet fs p else fs)"
  by (simp add: Get_def)

lemma Get_live:
  "getFilePath fc key = Inr p \<Longrightarrow> ReadFile fs p = Inr b \<Longrightarrow> Unmarshal js b = Some item \<Longrightarrow>
   \<not> now > ExpireAt item \<Longrightarrow>
   Get js fc fs now key = (Inr (Data item), fs)"
  by (simp add: Get_def)

lemma Get_Inr_file:
  "Get js fc fs now key = (Inr d, fs') \<Longrightarrow> getFilePath fc key = Inr p \<Longrightarrow> fileAt fs p = None \<Longrightarrow>
   False"
  by (auto simp: Get_def ReadFile_def split: if_splits option.splits)

lemma Set_then_read:
  assumes rt: "roundTrips js"
    and set: "SetWithTTL js fc fs now1 now2 key data t = (None, fs')"
  obtains p b item where "getFilePath fc key = Inr p" "fileAt fs' p = Some b"
    "Unmarshal js b = Some item" "Data item = data" "ExpireAt item = now1 + t"
    "denied fs' = denied fs"
proof -
  from SetWithTTL_success [OF set] obtain p b where
    p: "getFilePath fc key = Inr p"
    and m: "Marshal js \<lparr>Key = hasKey key, Data = data, ExpireAt = now1 + t, Created = now2\<rparr> = Some b"
    and f: "fileAt fs' p = Some b" and dn: "denied fs' = denied fs"
    by blast
  from rt m obtain item where "Unmarshal js b = Some item" "Data item = data"
    "ExpireAt item = now1 + t"
    unfolding roundTrips_def by fastforce
  then show ?thesis using p f dn that by blast
qed

lemma write_then_read:
  assumes "roundTrips js"
    and "SetWithTTL js fc fs now1 now2 key data t = (None, fs')"
    and "now \<le> now1 + t"
    and "\<forall>p. getFilePath fc key = Inr p \<longrightarrow> \<not> denied fs' OpRead p"
  shows "Get js fc fs' now key = (Inr data, fs')"
proof -
  from assms(1,2) obtain p b item where
    p: "getFilePath fc key = Inr p" and f: "fileAt fs' p = Some b"
    and u: "Unmarshal js b = Some item" and d: "Data item = data"
    and e: "ExpireAt item = now1 + t"
    by (rule Set_then_read)
  have r: "ReadFile fs' p = Inr b"
    using f p assms(4) by (simp add: ReadFile_def)
  show ?thesis
    using Get_live [OF p r u] assms(3) d e by simp
qed

lemma Get_outcomes_at:
  assumes p: "getFilePath fc key = Inr p" and purge: "purgeOnLoad fc"
  shows "(\<not> denied fs OpRead p \<and> fileAt fs p = None \<and> \<not> isDir fs p \<and> \<not> throughFile fs p \<longrightarrow>
          Get js fc fs now key = (Inl NotFound, fs))
    \<and> (denied fs OpRead p \<or> (fileAt fs p = None \<and> (isDir fs p \<or> throughFile fs p)) \<longrightarrow>
          Get js fc fs now key = (Inl ReadFailed, fs))
    \<and> (\<forall>b. \<not> denied fs OpRead p \<and> fileAt fs p = Some b \<and> Unmarshal js b = None \<longrightarrow>
          Get js fc fs now key = (Inl CorruptRecord, fs))
    \<and> (\<forall>b item. \<not> denied fs OpRead p \<and> fileAt fs p = Some b \<and> Unmarshal js b = Some item
            \<and> now > ExpireAt item \<longrightarrow>
          Get js fc fs now key = (Inl Expired, removeQuiet fs p)
          \<and> (\<not> denied fs OpRemove p \<longrightarrow>
                removeQuiet fs p = fs\<lparr>files := AList.delete p (files fs)\<rparr>
                \<and> fileAt (removeQuiet fs p) p = None)
          \<and> (denied fs OpRemove p \<longrightarrow> removeQuiet fs p = fs))
    \<and> (\<forall>b item. \<not> denied fs OpRead p \<and> fileAt fs p = Some b \<and> Unmarshal js b = Some item
            \<and> now \<le> ExpireAt item \<longrightarrow>
          Get js fc fs now key = (Inr (Data item), fs))
    \<and> (\<forall>fs0 now1 now2 data d.
          roundTrips js \<and> SetWithTTL js fc fs0 now1 now2 key data d = (None, fs)
            \<and> \<not> denied fs OpRead p \<longrightarrow>
          (now \<le> now1 + d \<longrightarrow> Get js fc fs now key = (Inr data, fs))
          \<and> (now > now1 + d \<longrightarrow> fst (Get js fc fs now key) = Inl Expired))"
proof (intro conjI allI impI)
  assume "\<not> denied fs OpRead p \<and> fileAt fs p = None \<and> \<not> isDir fs p \<and> \<not> throughFile fs p"
  then have "ReadFile fs p = Inl ErrNotExist" by (simp add: ReadFile_nothing)
  with p show "Get js fc fs now key = (Inl NotFound, fs)" by (rule Get_absent)
next
  assume "denied fs OpRead p \<or> (fileAt fs p = None \<and> (isDir fs p \<or> throughFile fs p))"
  then have "ReadFile fs p = Inl ErrOther" by (rule ReadFile_unreadable)
  with p show "Get js fc fs now key = (Inl ReadFailed, fs)" by (rule Get_unreadable)
next
  fix b assume "\<not> denied fs OpRead p \<and> fileAt fs p = Some b \<and> Unmarshal js b = None"
  then show "Get js fc fs now key = (Inl CorruptRecord, fs)"
    using p by (simp add: Get_corrupt ReadFile_file)
next
  fix b item
  assume "\<not> denied fs OpRead p \<and> fileAt fs p = Some b \<and> Unmarshal js b = Some item
    \<and> now > ExpireAt item"
  then show "Get js fc fs now key = (Inl Expired, removeQuiet fs p)"
    using p purge Get_expired [of fc key p fs b js item now] by (simp add: ReadFile_file)
next
  fix b item
  assume "\<not> denied fs OpRead p \<and> fileAt fs p = Some b \<and> Unmarshal js b = Some item
    \<and> now > ExpireAt item" and "\<not> denied fs OpRemove p"
  then show "removeQuiet fs p = fs\<lparr>files := AList.delete p (files fs)\<rparr>"
    by (simp add: removeQuiet_file)
next
  show "fileAt (removeQuiet fs p) p = None" if "\<not> denied fs OpRemove p"
    using that by (simp add: fileAt_removeQuiet)
next
  show "removeQuiet fs p = fs" if "denied fs OpRemove p"
    using that by (rule removeQuiet_denied)
next
  fix b item
  assume "\<not> denied fs OpRead p \<and> fileAt fs p = Some b \<and> Unmarshal js b = Some item
    \<and> now \<le> ExpireAt item"
  then show "Get js fc fs now key = (Inr (Data item), fs)"
    using p Get_live [of fc key p fs b js item now] by (simp add: ReadFile_file)
next
  fix fs0 now1 now2 data d
  assume a: "roundTrips js \<and> SetWithTTL js fc fs0 now1 now2 key data d = (None, fs)
    \<and> \<not> denied fs OpRead p"
  then obtain p' b item where
    p': "getFilePath fc key = Inr p'" and f: "fileAt fs p' = Some b"
    and u: "Unmarshal js b = Some item" and d: "Data item = data"
    and e: "ExpireAt item = now1 + d"
    using Set_then_read [of js fc fs0 now1 now2 key data d fs] by metis
  have pp: "p' = p" using p p' by simp
  have r: "ReadFile fs p = Inr b" using f pp a by (simp add: ReadFile_def)
  {
    assume "now \<le> now1 + d"
    then show "Get js fc fs now key = (Inr data, fs)"
      using Get_live [OF p r u] d e by simp
  }
  {
    assume "now > now1 + d"
    then show "fst (Get js fc fs now key) = Inl Expired"
      using Get_expired [OF p r u] e by simp
  }
qed

text \<open>
  The key \<^verbatim>\<open>../../..\<close> climbs the three shard directories: it resolves to the base
  directory itself.
\<close>

lemma pathSegs_append_path:
  "a \<noteq> [] \<Longrightarrow>
   pathSegs (a @ CHR ''/'' # b) = foldl (cleanStep (isRooted a)) (pathSegs a) (splitSep b)"
  by (simp add: pathSegs_def isRooted_snoc splitSep_append)

lemma cleanStep_up: "c \<noteq> ''..'' \<Longrightarrow> cleanStep r (st @ [c]) ''..'' = st"
  by (simp add: cleanStep_def)

lemma getFilePath_up3:
  assumes "dirLevels fc = 3" "prefixLen fc = 2"
  shows "getFilePath fc ''../../..'' = Inr (Clean (baseDir fc))"
proof -
  let ?k = "''../../..''"
  have ne: "shardDir fc ?k \<noteq> []" using pathSegs_shardDir [of fc ?k] by auto
  have c: "chunk ?k 0 \<noteq> ''..''" "chunk ?k 1 \<noteq> ''..''" "chunk ?k 2 \<noteq> ''..''"
    using plainSeg_chunk [of 0 ?k] plainSeg_chunk [of 1 ?k] plainSeg_chunk [of 2 ?k]
    by (simp_all add: plainSeg_def)
  have sp: "splitSep ?k = [''..'', ''..'', ''..'']" by simp
  have "pathSegs (shardDir fc ?k @ CHR ''/'' # ?k) = pathSegs (baseDir fc)"
    using c cleanStep_up [of "chunk ?k 2" _ "pathSegs (baseDir fc) @ [chunk ?k 0, chunk ?k 1]"]
      cleanStep_up [of "chunk ?k 1" _ "pathSegs (baseDir fc) @ [chunk ?k 0]"]
      cleanStep_up [of "chunk ?k 0" _ "pathSegs (baseDir fc)"]
    by (simp add: pathSegs_append_path [OF ne] pathSegs_shardDir sp del: splitSep.simps)
  then have "Join (shardDir fc ?k) ?k = Clean (baseDir fc)"
    using ne by (simp add: Join_def Clean_def isRooted_snoc isRooted_shardDir)
  then show ?thesis using getFilePath_std [OF assms, of ?k] by simp
qed

lemma listVisit_error: "listVisit fc ps keys = Inl e \<Longrightarrow> e = SliceBoundsPanic"
  by (induction fc ps keys rule: listVisit.induct) (auto simp: Let_def split: if_splits)

section \<open>The examples, evaluated\<close>

lemmas path_eval = getFilePath_def hashStr_examples shardLoop.simps substr_def
  Join_def Clean_def pathSegs_def render_def cleanStep_def isRooted_def exampleCache_def Let_def

lemma path_examples:
  "getFilePath exampleCache ''foo'' = Inr ''/tmp/my_cache/2c/26/b4/foo''"
  "getFilePath exampleCache ''foo_info.json'' = Inr ''/tmp/my_cache/2c/26/b4/foo_info.json''"
  "getFilePath exampleCache ''foo_toc.json'' = Inr ''/tmp/my_cache/2c/26/b4/foo_toc.json''"
  "getFilePath exampleCache ''expired1'' = Inr ''/tmp/my_cache/6b/f4/9e/expired1''"
  "getFilePath exampleCache ''valid1'' = Inr ''/tmp/my_cache/c0/4f/dd/valid1''"
  "getFilePath exampleCache ''..'' = Inr ''/tmp/my_cache/5e/c1''"
  by (simp_all add: path_eval)

lemma roundTrips_recordCodec: "roundTrips recordCodec"
  by (simp add: roundTrips_def recordCodec_def)

text \<open>The directories on the way to the shard directories of the examples.\<close>

lemma ancestors_examples:
  "ancestors ''/tmp/my_cache'' = [''/'', ''/tmp'', ''/tmp/my_cache'']"
  "ancestors ''/tmp/my_cache/2c/26/b4'' =
     [''/'', ''/tmp'', ''/tmp/my_cache'', ''/tmp/my_cache/2c'', ''/tmp/my_cache/2c/26'',
      ''/tmp/my_cache/2c/26/b4'']"
  "ancestors ''/tmp/my_cache/6b/f4/9e'' =
     [''/'', ''/tmp'', ''/tmp/my_cache'', ''/tmp/my_cache/6b'', ''/tmp/my_cache/6b/f4'',
      ''/tmp/my_cache/6b/f4/9e'']"
  "ancestors ''/tmp/my_cache/c0/4f/dd'' =
     [''/'', ''/tmp'', ''/tmp/my_cache'', ''/tmp/my_cache/c0'', ''/tmp/my_cache/c0/4f'',
      ''/tmp/my_cache/c0/4f/dd'']"
  by code_simp+

lemma Dir_examples:
  "Dir ''/tmp/my_cache/2c/26/b4/foo'' = ''/tmp/my_cache/2c/26/b4''"
  "Dir ''/tmp/my_cache/2c/26/b4/foo_info.json'' = ''/tmp/my_cache/2c/26/b4''"
  "Dir ''/tmp/my_cache/6b/f4/9e/expired1'' = ''/tmp/my_cache/6b/f4/9e''"
  "Dir ''/tmp/my_cache/c0/4f/dd/valid1'' = ''/tmp/my_cache/c0/4f/dd''"
  by code_simp+

lemma Clean_examples:
  "Clean ''/tmp/my_cache'' = ''/tmp/my_cache''"
  "Clean ''/tmp/my_cache/2c/26/b4'' = ''/tmp/my_cache/2c/26/b4''"
  "Clean ''/tmp/my_cache/6b/f4/9e'' = ''/tmp/my_cache/6b/f4/9e''"
  "Clean ''/tmp/my_cache/c0/4f/dd'' = ''/tmp/my_cache/c0/4f/dd''"
  "Clean ''/tmp/my_cache/2c/26/b4/foo'' = ''/tmp/my_cache/2c/26/b4/foo''"
  "Clean ''/tmp/my_cache/2c/26/b4/foo_info.json'' = ''/tmp/my_cache/2c/26/b4/foo_info.json''"
  "Clean ''/tmp/my_cache/6b/f4/9e/expired1'' = ''/tmp/my_cache/6b/f4/9e/expired1''"
  "Clean ''/tmp/my_cache/c0/4f/dd/valid1'' = ''/tmp/my_cache/c0/4f/dd/valid1''"
  by code_simp+

lemma exampleCache_fields:
  "baseDir exampleCache = ''/tmp/my_cache''" "ttl exampleCache = 1000000000"
  "dirLevels exampleCache = 3" "prefixLen exampleCache = 2" "purgeOnLoad exampleCache"
  by (simp_all add: exampleCache_def)

lemmas op_eval = SetWithTTL_def Set_def Get_def Exists_def Delete_def MkdirAll_def WriteFile_def
  ReadFile_def Remove_def removeQuiet_def Stat_def IsNotExist_def fileAt_def isDir_def
  recordCodec_def emptyStorage_def baseDirs_def fooDirs_def ancestors_examples Dir_examples
  Clean_examples Let_def

lemmas ex_eval = op_eval path_examples hasKey_examples fooStorage_def fooItem_def
  corruptStorage_def purgedStorage_def freshStorage_def exampleCache_fields

lemma NewFileCache_example:
  "NewFileCache emptyStorage ''/tmp/my_cache'' 1000000000 = (Inr exampleCache, freshStorage)"
  by (simp add: NewFileCache_def op_eval freshStorage_def exampleCache_def)

lemma set_foo:
  "SetWithTTL recordCodec exampleCache emptyStorage 0 10 ''foo'' [0, 255, 10] 100 = (None, fooStorage)"
  by (simp add: ex_eval)

lemma fooStorage_readable: "\<not> denied fooStorage op p"
  by (simp add: fooStorage_def emptyStorage_def)

lemma testStorage_eval:
  "testStorage = emptyStorage
     \<lparr>files := [(''/tmp/my_cache/6b/f4/9e/expired1'',
                  Some \<lparr>Key = ''expired1'', Data = data1, ExpireAt = 1000000, Created = 0\<rparr>),
                 (''/tmp/my_cache/c0/4f/dd/valid1'',
                  Some \<lparr>Key = ''valid1'', Data = data2, ExpireAt = 60000000000, Created = 0\<rparr>)],
      dirs := baseDirs @
        [''/tmp/my_cache/6b'', ''/tmp/my_cache/6b/f4'', ''/tmp/my_cache/6b/f4/9e'',
         ''/tmp/my_cache/c0'', ''/tmp/my_cache/c0/4f'', ''/tmp/my_cache/c0/4f/dd'']\<rparr>"
  by (simp add: testStorage_def ex_eval AList.update_def)

lemma threeKeys_eval:
  "threeKeys = emptyStorage
     \<lparr>files := [(''/tmp/my_cache/2c/26/b4/foo'',
                  Some \<lparr>Key = ''foo'', Data = data1, ExpireAt = 1000000000, Created = 0\<rparr>),
                 (''/tmp/my_cache/6b/f4/9e/expired1'',
                  Some \<lparr>Key = ''expired1'', Data = data1, ExpireAt = 1000000000, Created = 0\<rparr>),
                 (''/tmp/my_cache/c0/4f/dd/valid1'',
                  Some \<lparr>Key = ''valid1'', Data = data1, ExpireAt = 1000000000, Created = 0\<rparr>)],
      dirs := fooDirs @
        [''/tmp/my_cache/6b'', ''/tmp/my_cache/6b/f4'', ''/tmp/my_cache/6b/f4/9e'',
         ''/tmp/my_cache/c0'', ''/tmp/my_cache/c0/4f'', ''/tmp/my_cache/c0/4f/dd'']\<rparr>"
  by (simp add: threeKeys_def ex_eval AList.update_def)

lemma walk_eval:
  "walkFiles testStorage (baseDir exampleCache) =
     [''/tmp/my_cache/6b/f4/9e/expired1'', ''/tmp/my_cache/c0/4f/dd/valid1'']"
  by (simp add: walkFiles_def testStorage_eval emptyStorage_def exampleCache_fields
      underRoot_def pathSegs_def isRooted_def cleanStep_def)

lemma walk_eval3:
  "walkFiles threeKeys (baseDir exampleCache) =
     [''/tmp/my_cache/2c/26/b4/foo'', ''/tmp/my_cache/6b/f4/9e/expired1'',
      ''/tmp/my_cache/c0/4f/dd/valid1'']"
  by (simp add: walkFiles_def threeKeys_eval emptyStorage_def exampleCache_fields
      underRoot_def pathSegs_def isRooted_def cleanStep_def)

section \<open>The claims\<close>

subsection \<open>C1: reading back what was written\<close>

text \<open>
  C1. For every key and every payload, the empty one and bytes that are no text included:
  if \<^verbatim>\<open>SetWithTTL(K, P, ttl)\<close> succeeds and \<^verbatim>\<open>Get(K)\<close> is called on the resulting
  storage before the record expires, that is at an instant not after the first clock
  reading of the write plus \<open>ttl\<close>, then \<^verbatim>\<open>Get(K)\<close> returns exactly the bytes \<open>P\<close> and
  leaves the storage as it is. The codec is assumed to read back what it wrote, and the
  operating system to let the file be read. The statement needs no hypothesis on the sign
  of \<open>ttl\<close>, so it holds for a positive one.
\<close>

theorem SetWithTTL_Get_roundtrip:
  assumes "roundTrips js"
    and "SetWithTTL js fc fs now1 now2 key data t = (None, fs')"
    and "now \<le> now1 + t"
    and "\<forall>p. getFilePath fc key = Inr p \<longrightarrow> \<not> denied fs' OpRead p"
  shows "Get js fc fs' now key = (Inr data, fs')"
  using assms by (rule write_then_read)

text \<open>
  The theorem at the key \<^verbatim>\<open>foo\<close>, a payload that is no text, a positive \<open>ttl\<close> of
  100 and a read at the very instant of expiration.
\<close>

theorem SetWithTTL_Get_roundtrip_witness:
  "roundTrips recordCodec
   \<and> SetWithTTL recordCodec exampleCache emptyStorage 0 10 ''foo'' [0, 255, 10] 100 = (None, fooStorage)
   \<and> (100 :: int) \<le> 0 + 100
   \<and> Get recordCodec exampleCache fooStorage 100 ''foo'' = (Inr [0, 255, 10], fooStorage)"
proof -
  have h3: "(100 :: int) \<le> 0 + 100" by simp
  have h4: "\<forall>p. getFilePath exampleCache ''foo'' = Inr p \<longrightarrow> \<not> denied fooStorage OpRead p"
    by (simp add: fooStorage_readable)
  show ?thesis
    using SetWithTTL_Get_roundtrip [OF roundTrips_recordCodec set_foo h3 h4]
      roundTrips_recordCodec set_foo
    by simp
qed

subsection \<open>C2: enumeration of the keys\<close>

text \<open>
  C2. After writing keys with \<^verbatim>\<open>Set\<close> whose shard directories differ,
  \<^verbatim>\<open>ListKeys\<close> is claimed to return exactly the keys written. The callback of
  \<^verbatim>\<open>ListKeys\<close> skips every file whose name does not end in \<^verbatim>\<open>.json\<close>, and
  \<^verbatim>\<open>getFilePath\<close> names a file by the key alone. On the storage holding the records
  of \<^verbatim>\<open>foo\<close>, \<^verbatim>\<open>expired1\<close> and \<^verbatim>\<open>valid1\<close>, in three different shard
  directories, \<^verbatim>\<open>ListKeys\<close> returns the empty list.
\<close>

theorem ListKeys_omits_written_keys:
  "map fst (files threeKeys) =
     [''/tmp/my_cache/2c/26/b4/foo'', ''/tmp/my_cache/6b/f4/9e/expired1'',
      ''/tmp/my_cache/c0/4f/dd/valid1'']
   \<and> ListKeys exampleCache threeKeys = Inr []"
  by (simp add: ListKeys_def walk_eval3 Ext_def)
     (simp add: threeKeys_def ex_eval AList.update_def)

subsection \<open>C3: the sweep\<close>

text \<open>
  C3. \<^verbatim>\<open>PurgeExpired\<close> is claimed to remove the files of all expired records. Its
  callback returns at once on a file whose name does not end in \<^verbatim>\<open>.json\<close>. On the
  storage of the purge test of \<^verbatim>\<open>cache_test.go\<close>, with \<^verbatim>\<open>expired1\<close> written
  with a \<open>ttl\<close> of one millisecond and \<^verbatim>\<open>valid1\<close> with one minute, a sweep ten
  milliseconds later changes nothing: the file of the expired record is still there.
\<close>

theorem PurgeExpired_keeps_expired_record:
  "fileAt testStorage ''/tmp/my_cache/6b/f4/9e/expired1'' =
     Some (Some \<lparr>Key = ''expired1'', Data = data1, ExpireAt = 1000000, Created = 0\<rparr>)
   \<and> PurgeExpired recordCodec exampleCache testStorage (\<lambda>path. 10000000) = (None, testStorage)"
  by (simp add: PurgeExpired_def walk_eval purgeVisit_def Ext_def)
     (simp add: testStorage_def ex_eval AList.update_def)

subsection \<open>C4: the resolved path\<close>

text \<open>
  C4, as amended. For a cache with three levels of two characters and every key, the
  resolved path is a function of the key: \<^verbatim>\<open>filepath.Join\<close> of the shard directory
  and the original key, where the shard directory is the base directory joined with the
  first three 2-character chunks of the lower-case hexadecimal SHA-256 digest of the
  normalized key, and the normalized key is the key after \<^verbatim>\<open>ReplaceAll\<close> has removed
  \<^verbatim>\<open>_info.json\<close> and then \<^verbatim>\<open>_toc.json\<close> wherever they occur (from
  \<^verbatim>\<open>a_info.jsonb\<close> it makes \<^verbatim>\<open>ab\<close>). The join cleans the path, so the original
  key is the final element of the path when the key is a single path element: then the
  path is the shard directory, a separator and the key.
\<close>

theorem getFilePath_shape:
  assumes "dirLevels fc = 3" "prefixLen fc = 2"
  shows "(let normalized = ReplaceAll (ReplaceAll key ''_info.json'' []) ''_toc.json'' [];
              h = EncodeToString (Sum256 (map of_char normalized));
              shard = Join (Join (Join (baseDir fc) (take 2 h)) (take 2 (drop 2 h)))
                        (take 2 (drop 4 h))
          in getFilePath fc key = Inr (Join shard key)
             \<and> (plainSeg key \<longrightarrow> getFilePath fc key = Inr (shard @ ''/'' @ key)))
         \<and> ReplaceAll ''a_info.jsonb'' ''_info.json'' [] = ''ab''"
proof -
  have sd: "shardDir fc key =
      (let h = EncodeToString (Sum256 (map of_char
                 (ReplaceAll (ReplaceAll key ''_info.json'' []) ''_toc.json'' [])))
       in Join (Join (Join (baseDir fc) (take 2 h)) (take 2 (drop 2 h))) (take 2 (drop 4 h)))"
    by (simp add: shardDir_def chunk_def hashStr_def hasKey_def Let_def)
  have a: "getFilePath fc key = Inr (Join (shardDir fc key) key)"
    using assms by (rule getFilePath_std)
  have b: "plainSeg key \<Longrightarrow> getFilePath fc key = Inr (shardDir fc key @ ''/'' @ key)"
    using a by (simp add: Join_shardDir_plain)
  have c: "ReplaceAll ''a_info.jsonb'' ''_info.json'' [] = ''ab''"
    by (simp add: ReplaceAll.simps HasPrefix_def)
  show ?thesis using a b c unfolding sd by (simp add: Let_def)
qed

text \<open>The theorem at the key \<^verbatim>\<open>foo_info.json\<close>, which is a single path element.\<close>

theorem getFilePath_shape_witness:
  "dirLevels exampleCache = 3 \<and> prefixLen exampleCache = 2 \<and> plainSeg ''foo_info.json''
   \<and> getFilePath exampleCache ''foo_info.json'' = Inr ''/tmp/my_cache/2c/26/b4/foo_info.json''"
proof -
  have pl: "plainSeg ''foo_info.json''" by (simp add: plainSeg_def segOK_def)
  have h: "EncodeToString (Sum256 (map of_char
      (ReplaceAll (ReplaceAll ''foo_info.json'' ''_info.json'' []) ''_toc.json'' [])))
      = ''2c26b46b68ffc68ff99b453c1d30413413422d706483bfa0f98a5e886266e7ae''"
    using hashStr_examples(2) by (simp only: hashStr_def hasKey_def)
  have j: "Join (Join (Join ''/tmp/my_cache'' ''2c'') ''26'') ''b4'' = ''/tmp/my_cache/2c/26/b4''"
    by (simp add: Join_def Clean_def pathSegs_def render_def cleanStep_def isRooted_def)
  show ?thesis
    using getFilePath_shape [OF exampleCache_fields(3,4), of "''foo_info.json''"] pl
    unfolding h Let_def
    by (simp add: exampleCache_fields j Join_def Clean_def pathSegs_def render_def cleanStep_def
        isRooted_def)
qed

text \<open>
  The claim as stated fails at the key \<^verbatim>\<open>..\<close>: the digest starts with
  \<^verbatim>\<open>5ec1f7\<close>, and the resolved path has two shard directories and no element for
  the key, instead of three shard directories followed by the key.
\<close>

theorem dotdot_key_counterexample:
  "take 6 (hashStr ''..'') = ''5ec1f7''
   \<and> getFilePath exampleCache ''..'' = Inr ''/tmp/my_cache/5e/c1''
   \<and> getFilePath exampleCache ''..'' \<noteq> Inr (''/tmp/my_cache/5e/c1/f7'' @ ''/'' @ ''..'')"
  by (simp add: path_examples hashStr_examples)

subsection \<open>C5: the outcomes of \<^verbatim>\<open>Get\<close>\<close>

text \<open>
  C5, as amended. For a cache built by the constructor and every key, the path resolves,
  and \<^verbatim>\<open>Get\<close> fails with \<open>NotFound\<close> when nothing is at the path (no regular file,
  no directory, and the way to it does not go through a regular file) and the operating
  system does not refuse the read; fails with the read error \<open>ReadFailed\<close> when the
  operating system refuses the read or the path is a directory or goes through a regular
  file; fails with \<open>CorruptRecord\<close> when the content of the file does not parse; fails
  with \<open>Expired\<close> when the clock is strictly after the record's \<open>ExpireAt\<close>, and then
  the file is removed unless the operating system refuses, in which case the storage is
  unchanged and the error is \<open>Expired\<close> all the same; and otherwise returns the stored
  payload. These cases are exhaustive. A record written with the duration \<open>d\<close> expires
  at the first clock reading of the write plus \<open>d\<close>: it is returned at every instant up
  to and including that one, and \<^verbatim>\<open>Get\<close> fails with \<open>Expired\<close> at every later
  instant.
\<close>

theorem Get_outcomes:
  assumes "fst (NewFileCache st dir t0) = Inr fc"
  shows "\<exists>p. getFilePath fc key = Inr p
    \<and> (\<not> denied fs OpRead p \<and> fileAt fs p = None \<and> \<not> isDir fs p \<and> \<not> throughFile fs p \<longrightarrow>
          Get js fc fs now key = (Inl NotFound, fs))
    \<and> (denied fs OpRead p \<or> (fileAt fs p = None \<and> (isDir fs p \<or> throughFile fs p)) \<longrightarrow>
          Get js fc fs now key = (Inl ReadFailed, fs))
    \<and> (\<forall>b. \<not> denied fs OpRead p \<and> fileAt fs p = Some b \<and> Unmarshal js b = None \<longrightarrow>
          Get js fc fs now key = (Inl CorruptRecord, fs))
    \<and> (\<forall>b item. \<not> denied fs OpRead p \<and> fileAt fs p = Some b \<and> Unmarshal js b = Some item
            \<and> now > ExpireAt item \<longrightarrow>
          Get js fc fs now key = (Inl Expired, removeQuiet fs p)
          \<and> (\<not> denied fs OpRemove p \<longrightarrow>
                removeQuiet fs p = fs\<lparr>files := AList.delete p (files fs)\<rparr>
                \<and> fileAt (removeQuiet fs p) p = None)
          \<and> (denied fs OpRemove p \<longrightarrow> removeQuiet fs p = fs))
    \<and> (\<forall>b item. \<not> denied fs OpRead p \<and> fileAt fs p = Some b \<and> Unmarshal js b = Some item
            \<and> now \<le> ExpireAt item \<longrightarrow>
          Get js fc fs now key = (Inr (Data item), fs))
    \<and> (\<forall>fs0 now1 now2 data d.
          roundTrips js \<and> SetWithTTL js fc fs0 now1 now2 key data d = (None, fs)
            \<and> \<not> denied fs OpRead p \<longrightarrow>
          (now \<le> now1 + d \<longrightarrow> Get js fc fs now key = (Inr data, fs))
          \<and> (now > now1 + d \<longrightarrow> fst (Get js fc fs now key) = Inl Expired))"
proof -
  have std: "dirLevels fc = 3" "prefixLen fc = 2" and g: "purgeOnLoad fc"
    using NewFileCache_std [OF assms] by simp_all
  have p: "getFilePath fc key = Inr (Join (shardDir fc key) key)"
    using std by (rule getFilePath_std)
  show ?thesis
    by (rule exI [of _ "Join (shardDir fc key) key"], rule conjI [OF p],
        rule Get_outcomes_at [OF p g])
qed

text \<open>
  The theorem on the example cache. At the key \<^verbatim>\<open>foo\<close>: nothing at the path, an
  unparsable file, and the record written at the clock readings 0 and 10 with the
  duration 100, read at the instants 101 and 100. At the key \<^verbatim>\<open>../../..\<close>, on the
  storage as the constructor leaves it: the path is the base directory, and the read
  fails.
\<close>

theorem Get_outcomes_witness:
  "NewFileCache emptyStorage ''/tmp/my_cache'' 1000000000 = (Inr exampleCache, freshStorage)
   \<and> SetWithTTL recordCodec exampleCache emptyStorage 0 10 ''foo'' [0, 255, 10] 100 = (None, fooStorage)
   \<and> Get recordCodec exampleCache freshStorage 50 ''foo'' = (Inl NotFound, freshStorage)
   \<and> getFilePath exampleCache ''../../..'' = Inr ''/tmp/my_cache''
   \<and> Get recordCodec exampleCache freshStorage 50 ''../../..'' = (Inl ReadFailed, freshStorage)
   \<and> Get recordCodec exampleCache corruptStorage 50 ''foo'' = (Inl CorruptRecord, corruptStorage)
   \<and> Get recordCodec exampleCache fooStorage 101 ''foo'' = (Inl Expired, purgedStorage)
   \<and> Get recordCodec exampleCache fooStorage 100 ''foo'' = (Inr [0, 255, 10], fooStorage)"
proof -
  have n: "fst (NewFileCache emptyStorage ''/tmp/my_cache'' 1000000000) = Inr exampleCache"
    by (simp add: NewFileCache_example)
  have up: "getFilePath exampleCache ''../../..'' = Inr ''/tmp/my_cache''"
    using getFilePath_up3 [of exampleCache] by (simp add: exampleCache_fields Clean_examples)
  have a: "\<not> denied freshStorage OpRead ''/tmp/my_cache/2c/26/b4/foo''"
    "fileAt freshStorage ''/tmp/my_cache/2c/26/b4/foo'' = None"
    "\<not> isDir freshStorage ''/tmp/my_cache/2c/26/b4/foo''"
    "\<not> throughFile freshStorage ''/tmp/my_cache/2c/26/b4/foo''"
    by (simp_all add: ex_eval throughFile_def)
  have d: "\<not> denied freshStorage OpRead ''/tmp/my_cache''"
    "fileAt freshStorage ''/tmp/my_cache'' = None" "isDir freshStorage ''/tmp/my_cache''"
    by (simp_all add: ex_eval)
  have b: "\<not> denied corruptStorage OpRead ''/tmp/my_cache/2c/26/b4/foo''"
    "fileAt corruptStorage ''/tmp/my_cache/2c/26/b4/foo'' = Some None"
    "Unmarshal recordCodec None = None"
    by (simp_all add: ex_eval)
  have c: "\<not> denied fooStorage OpRead ''/tmp/my_cache/2c/26/b4/foo''"
    "\<not> denied fooStorage OpRemove ''/tmp/my_cache/2c/26/b4/foo''"
    "fileAt fooStorage ''/tmp/my_cache/2c/26/b4/foo'' = Some (Some fooItem)"
    "Unmarshal recordCodec (Some fooItem) = Some fooItem"
    "ExpireAt fooItem = 100" "Data fooItem = [0, 255, 10]"
    "fooStorage\<lparr>files := AList.delete ''/tmp/my_cache/2c/26/b4/foo'' (files fooStorage)\<rparr>
       = purgedStorage"
    by (simp_all add: ex_eval)
  show ?thesis
    using Get_outcomes [OF n, of "''foo''" freshStorage recordCodec 50]
      Get_outcomes [OF n, of "''../../..''" freshStorage recordCodec 50]
      Get_outcomes [OF n, of "''foo''" corruptStorage recordCodec 50]
      Get_outcomes [OF n, of "''foo''" fooStorage recordCodec 101]
      Get_outcomes [OF n, of "''foo''" fooStorage recordCodec 100]
      NewFileCache_example set_foo up a b c d
    by (simp add: path_examples)
qed

text \<open>
  The claim as stated puts the boundary at the creation time plus the duration. The
  write reads the clock twice; with the readings 0 and 10 and the duration 100 the record
  is created at 10 and expires at 100, and a \<^verbatim>\<open>Get\<close> at the creation time plus the
  duration minus 1 fails with \<open>Expired\<close>.
\<close>

theorem expiry_boundary_counterexample:
  "fst (SetWithTTL recordCodec exampleCache emptyStorage 0 10 ''foo'' [0, 255, 10] 100) = None
   \<and> fileAt (snd (SetWithTTL recordCodec exampleCache emptyStorage 0 10 ''foo'' [0, 255, 10] 100))
        ''/tmp/my_cache/2c/26/b4/foo''
      = Some (Some \<lparr>Key = ''foo'', Data = [0, 255, 10], ExpireAt = 100, Created = 10\<rparr>)
   \<and> fst (Get recordCodec exampleCache
        (snd (SetWithTTL recordCodec exampleCache emptyStorage 0 10 ''foo'' [0, 255, 10] 100))
        (10 + 100 - 1) ''foo'') = Inl Expired"
  by (simp add: set_foo) (simp add: ex_eval)

subsection \<open>C6: \<^verbatim>\<open>Exists\<close>\<close>

text \<open>
  C6. \<^verbatim>\<open>Exists\<close> returns a boolean and no error. With \<open>purgeOnLoad\<close> set, as the
  constructor sets it, every error yields \<open>False\<close>: a failure of the path resolution,
  the absence of the file, and any failure of the delegated \<^verbatim>\<open>Get\<close>; and the result
  is \<open>True\<close> if and only if the file exists and the delegated \<^verbatim>\<open>Get\<close> succeeds.
\<close>

theorem Exists_iff_Get:
  assumes "purgeOnLoad fc"
  shows "(\<forall>e. getFilePath fc key = Inl e \<longrightarrow> \<not> fst (Exists js fc fs now key))
    \<and> (\<forall>p. getFilePath fc key = Inr p \<and> fileAt fs p = None \<longrightarrow> \<not> fst (Exists js fc fs now key))
    \<and> (\<forall>e. fst (Get js fc fs now key) = Inl e \<longrightarrow> \<not> fst (Exists js fc fs now key))
    \<and> (fst (Exists js fc fs now key) \<longleftrightarrow>
         (\<exists>p. getFilePath fc key = Inr p \<and> fileAt fs p \<noteq> None) \<and>
         (\<exists>data. fst (Get js fc fs now key) = Inr data))"
  using assms
  by (auto simp: Exists_def Stat_def dest: Get_Inr_file
      split: sum.splits option.splits oserror.splits prod.splits if_splits)

text \<open>
  The theorem on the example cache: the record of \<^verbatim>\<open>foo\<close> before and after its
  expiration, and a storage without the file.
\<close>

theorem Exists_iff_Get_witness:
  "purgeOnLoad exampleCache
   \<and> fst (Exists recordCodec exampleCache fooStorage 100 ''foo'')
   \<and> \<not> fst (Exists recordCodec exampleCache fooStorage 101 ''foo'')
   \<and> \<not> fst (Exists recordCodec exampleCache emptyStorage 100 ''foo'')"
proof -
  have g: "purgeOnLoad exampleCache" by (simp add: exampleCache_fields)
  have p: "getFilePath exampleCache ''foo'' = Inr ''/tmp/my_cache/2c/26/b4/foo''"
    by (simp add: path_examples)
  have a: "fileAt fooStorage ''/tmp/my_cache/2c/26/b4/foo'' \<noteq> None"
    "fileAt emptyStorage ''/tmp/my_cache/2c/26/b4/foo'' = None"
    by (simp_all add: fileAt_def fooStorage_def emptyStorage_def)
  have b: "fst (Get recordCodec exampleCache fooStorage 100 ''foo'') = Inr [0, 255, 10]"
    "fst (Get recordCodec exampleCache fooStorage 101 ''foo'') = Inl Expired"
    by (simp_all add: ex_eval)
  show ?thesis
    using Exists_iff_Get [OF g, of "''foo''" recordCodec fooStorage 100]
      Exists_iff_Get [OF g, of "''foo''" recordCodec fooStorage 101]
      Exists_iff_Get [OF g, of "''foo''" recordCodec emptyStorage 100]
      g p a b
    by simp
qed

subsection \<open>C7: the two time stamps of a stored record\<close>

text \<open>
  C7, as amended. Whenever \<^verbatim>\<open>SetWithTTL\<close> or \<^verbatim>\<open>Set\<close> succeeds, the file at the
  resolved path holds the serialization of a record whose \<open>ExpireAt\<close> is the first clock
  reading of the write plus the duration in effect (the argument of \<^verbatim>\<open>SetWithTTL\<close>,
  the default of the cache for \<^verbatim>\<open>Set\<close>) and whose \<open>Created\<close> is the second clock
  reading; so no record is stored without an expiration, and \<open>ExpireAt\<close> equals
  \<open>Created\<close> plus the duration exactly when the two readings coincide.
\<close>

theorem stored_record_times:
  "(SetWithTTL js fc fs now1 now2 key data t = (None, fs') \<longrightarrow>
      (\<exists>p b. getFilePath fc key = Inr p \<and> fileAt fs' p = Some b \<and>
         Marshal js \<lparr>Key = hasKey key, Data = data, ExpireAt = now1 + t, Created = now2\<rparr>
           = Some b))
   \<and> (Set js fc fs now1 now2 key data = (None, fs') \<longrightarrow>
      (\<exists>p b. getFilePath fc key = Inr p \<and> fileAt fs' p = Some b \<and>
         Marshal js \<lparr>Key = hasKey key, Data = data, ExpireAt = now1 + ttl fc, Created = now2\<rparr>
           = Some b))
   \<and> (now1 + t = now2 + t \<longleftrightarrow> now1 = now2)"
proof (intro conjI impI)
  assume "SetWithTTL js fc fs now1 now2 key data t = (None, fs')"
  from SetWithTTL_success [OF this]
  show "\<exists>p b. getFilePath fc key = Inr p \<and> fileAt fs' p = Some b \<and>
         Marshal js \<lparr>Key = hasKey key, Data = data, ExpireAt = now1 + t, Created = now2\<rparr>
           = Some b"
    by blast
next
  assume "Set js fc fs now1 now2 key data = (None, fs')"
  then have "SetWithTTL js fc fs now1 now2 key data (ttl fc) = (None, fs')"
    by (simp add: Set_def)
  from SetWithTTL_success [OF this]
  show "\<exists>p b. getFilePath fc key = Inr p \<and> fileAt fs' p = Some b \<and>
         Marshal js \<lparr>Key = hasKey key, Data = data, ExpireAt = now1 + ttl fc, Created = now2\<rparr>
           = Some b"
    by blast
next
  show "now1 + t = now2 + t \<longleftrightarrow> now1 = now2" by simp
qed

text \<open>The theorem at a write with the clock readings 0 and 10 and the duration 100.\<close>

theorem stored_record_times_witness:
  "SetWithTTL recordCodec exampleCache emptyStorage 0 10 ''foo'' [0, 255, 10] 100 = (None, fooStorage)
   \<and> (\<exists>p b. getFilePath exampleCache ''foo'' = Inr p \<and> fileAt fooStorage p = Some b \<and>
         Marshal recordCodec \<lparr>Key = ''foo'', Data = [0, 255, 10], ExpireAt = 0 + 100, Created = 10\<rparr>
           = Some b)"
  using stored_record_times [of recordCodec exampleCache emptyStorage 0 10 "''foo''"
      "[0, 255, 10]" 100 fooStorage] set_foo
  by (simp add: hasKey_examples)

text \<open>
  The claim as stated fails at that write: the stored record is created at 10 and expires
  at 100, which is not 10 plus 100.
\<close>

theorem expiry_not_creation_plus_ttl_counterexample:
  "fst (SetWithTTL recordCodec exampleCache emptyStorage 0 10 ''foo'' [0, 255, 10] 100) = None
   \<and> fileAt (snd (SetWithTTL recordCodec exampleCache emptyStorage 0 10 ''foo'' [0, 255, 10] 100))
        ''/tmp/my_cache/2c/26/b4/foo''
      = Some (Some fooItem)
   \<and> ExpireAt fooItem \<noteq> Created fooItem + 100"
  by (simp add: set_foo) (simp add: ex_eval)

subsection \<open>C8: the key \<^verbatim>\<open>foo_info.json\<close>\<close>



subsection \<open>C9: \<open>InvalidConfiguration\<close>\<close>

text \<open>
  C9. With non-negative shard parameters the path resolution fails exactly when the
  levels times the prefix length exceed the length of the digest, and it fails with
  \<open>InvalidConfiguration\<close> only. The digest has 64 characters. For a cache built by the
  constructor, with 3 levels of 2 characters, the path resolution succeeds on every key and
  none of \<^verbatim>\<open>SetWithTTL\<close>, \<^verbatim>\<open>Set\<close>, \<^verbatim>\<open>Get\<close>, \<^verbatim>\<open>GetString\<close>,
  \<^verbatim>\<open>Delete\<close>, \<^verbatim>\<open>PurgeExpired\<close> and \<^verbatim>\<open>ListKeys\<close> fails with
  \<open>InvalidConfiguration\<close>; \<^verbatim>\<open>Exists\<close> returns no error at all.
\<close>

theorem getFilePath_invalid_configuration:
  "(0 \<le> dirLevels fc \<and> 0 \<le> prefixLen fc \<longrightarrow>
      (getFilePath fc key = Inl InvalidConfiguration \<longleftrightarrow>
         dirLevels fc * prefixLen fc > int (length (hashStr key))) \<and>
      (\<forall>e. getFilePath fc key = Inl e \<longrightarrow> e = InvalidConfiguration))
   \<and> length (hashStr key) = 64
   \<and> (fst (NewFileCache fs0 dir t0) = Inr fc \<longrightarrow>
        (\<exists>p. getFilePath fc key = Inr p)
        \<and> fst (SetWithTTL js fc fs now1 now2 key data t) \<noteq> Some InvalidConfiguration
        \<and> fst (Set js fc fs now1 now2 key data) \<noteq> Some InvalidConfiguration
        \<and> fst (Get js fc fs now key) \<noteq> Inl InvalidConfiguration
        \<and> fst (GetString js fc fs now key) \<noteq> Inl InvalidConfiguration
        \<and> fst (Delete fc fs key) \<noteq> Some InvalidConfiguration
        \<and> fst (PurgeExpired js fc fs clock) \<noteq> Some InvalidConfiguration
        \<and> ListKeys fc fs \<noteq> Inl InvalidConfiguration)"
proof (intro conjI impI)
  assume nn: "0 \<le> dirLevels fc \<and> 0 \<le> prefixLen fc"
  have sl: "(shardLoop fc (hashStr key) 0 (baseDir fc) = Inl InvalidConfiguration \<longleftrightarrow>
      0 < dirLevels fc \<and> dirLevels fc * prefixLen fc > int (length (hashStr key))) \<and>
   shardLoop fc (hashStr key) 0 (baseDir fc) \<noteq> Inl SliceBoundsPanic \<and>
   (\<forall>e. shardLoop fc (hashStr key) 0 (baseDir fc) = Inl e \<longrightarrow> e = InvalidConfiguration)"
    using nn shardLoop_invalid [of fc 0 "hashStr key" "baseDir fc"] by simp
  have zero: "dirLevels fc = 0 \<Longrightarrow> \<not> dirLevels fc * prefixLen fc > int (length (hashStr key))"
    by simp
  show "getFilePath fc key = Inl InvalidConfiguration \<longleftrightarrow>
         dirLevels fc * prefixLen fc > int (length (hashStr key))"
    using sl nn zero by (cases "dirLevels fc = 0") (auto simp: getFilePath_def split: sum.splits)
  show "\<forall>e. getFilePath fc key = Inl e \<longrightarrow> e = InvalidConfiguration"
    using sl by (auto simp: getFilePath_def split: sum.splits)
next
  show "length (hashStr key) = 64" by (rule length_hashStr)
next
  assume new: "fst (NewFileCache fs0 dir t0) = Inr fc"
  then have std: "dirLevels fc = 3" "prefixLen fc = 2" using NewFileCache_std by blast+
  have p: "getFilePath fc key = Inr (Join (shardDir fc key) key)"
    using std by (rule getFilePath_std)
  show "\<exists>p. getFilePath fc key = Inr p" using p by blast
  show "fst (SetWithTTL js fc fs now1 now2 key data t) \<noteq> Some InvalidConfiguration"
    using p by (auto simp: SetWithTTL_def Let_def split: sum.splits option.splits)
  show "fst (Set js fc fs now1 now2 key data) \<noteq> Some InvalidConfiguration"
    using p by (auto simp: Set_def SetWithTTL_def Let_def split: sum.splits option.splits)
  show g: "fst (Get js fc fs now key) \<noteq> Inl InvalidConfiguration"
    using p by (auto simp: Get_def split: sum.splits option.splits)
  show "fst (GetString js fc fs now key) \<noteq> Inl InvalidConfiguration"
    using g by (auto simp: GetString_def split: sum.splits prod.splits)
  show "fst (Delete fc fs key) \<noteq> Some InvalidConfiguration"
    using p by (auto simp: Delete_def split: sum.splits)
  show "fst (PurgeExpired js fc fs clock) \<noteq> Some InvalidConfiguration"
    by (simp add: PurgeExpired_def)
  show "ListKeys fc fs \<noteq> Inl InvalidConfiguration"
    using listVisit_error [of fc _ "[]" InvalidConfiguration] by (auto simp: ListKeys_def)
qed

text \<open>
  The theorem at 33 levels of 2 characters, which ask for 66 characters, at 32 levels,
  which ask for 64, and at the example cache.
\<close>

theorem getFilePath_invalid_configuration_witness:
  "getFilePath (exampleCache\<lparr>dirLevels := 33\<rparr>) ''foo'' = Inl InvalidConfiguration
   \<and> getFilePath (exampleCache\<lparr>dirLevels := 32\<rparr>) ''foo'' \<noteq> Inl InvalidConfiguration
   \<and> fst (NewFileCache emptyStorage ''/tmp/my_cache'' 1000000000) = Inr exampleCache
   \<and> (\<exists>p. getFilePath exampleCache ''foo'' = Inr p)
   \<and> fst (Get recordCodec exampleCache emptyStorage 0 ''foo'') \<noteq> Inl InvalidConfiguration"
  using getFilePath_invalid_configuration [of "exampleCache\<lparr>dirLevels := 33\<rparr>" "''foo''"
      emptyStorage "[]" 0 recordCodec emptyStorage 0 0 "[]" 0 0 "\<lambda>p. 0"]
    getFilePath_invalid_configuration [of "exampleCache\<lparr>dirLevels := 32\<rparr>" "''foo''"
      emptyStorage "[]" 0 recordCodec emptyStorage 0 0 "[]" 0 0 "\<lambda>p. 0"]
    getFilePath_invalid_configuration [of exampleCache "''foo''"
      emptyStorage "''/tmp/my_cache''" 1000000000 recordCodec emptyStorage 0 0 "[]" 0 0 "\<lambda>p. 0"]
    NewFileCache_example
  by (simp add: exampleCache_def)

subsection \<open>C10: distinct keys, distinct files\<close>

text \<open>
  C10. On a cache with three levels of two characters, two distinct keys that contain no
  separator and are neither \<^verbatim>\<open>.\<close> nor \<^verbatim>\<open>..\<close> resolve to distinct paths, also
  when both normalize to the same hashed key; and \<^verbatim>\<open>SetWithTTL\<close>, \<^verbatim>\<open>Set\<close>,
  \<^verbatim>\<open>Delete\<close>, \<^verbatim>\<open>Get\<close> and \<^verbatim>\<open>Exists\<close> on the first key, whatever they
  return, leave the file of the second key as it was.
\<close>

theorem distinct_keys_distinct_files:
  assumes "dirLevels fc = 3" "prefixLen fc = 2"
    and "keyOK k1" "keyOK k2" "k1 \<noteq> k2"
  shows "\<exists>p1 p2. getFilePath fc k1 = Inr p1 \<and> getFilePath fc k2 = Inr p2 \<and> p1 \<noteq> p2
    \<and> fileAt (snd (SetWithTTL js fc fs now1 now2 k1 data t)) p2 = fileAt fs p2
    \<and> fileAt (snd (Set js fc fs now1 now2 k1 data)) p2 = fileAt fs p2
    \<and> fileAt (snd (Delete fc fs k1)) p2 = fileAt fs p2
    \<and> fileAt (snd (Get js fc fs now k1)) p2 = fileAt fs p2
    \<and> fileAt (snd (Exists js fc fs now k1)) p2 = fileAt fs p2"
proof -
  have p1: "getFilePath fc k1 = Inr (Join (shardDir fc k1) k1)"
    and p2: "getFilePath fc k2 = Inr (Join (shardDir fc k2) k2)"
    using assms(1,2) by (simp_all add: getFilePath_std)
  have ne: "Join (shardDir fc k2) k2 \<noteq> Join (shardDir fc k1) k1"
    using paths_distinct [OF assms(3,4,5), of fc] by simp
  show ?thesis
    using p1 p2 ne
      SetWithTTL_frame [OF p1 ne, of js fs now1 now2 data t]
      SetWithTTL_frame [OF p1 ne, of js fs now1 now2 data "ttl fc"]
      Delete_frame [OF p1 ne, of fs] Get_frame [OF p1 ne, of js fs now]
      Exists_frame [OF p1 ne, of js fs now]
    by (simp add: Set_def)
qed

text \<open>
  The theorem at the keys \<^verbatim>\<open>foo_info.json\<close> and \<^verbatim>\<open>foo_toc.json\<close>, which both
  normalize to \<^verbatim>\<open>foo\<close>.
\<close>

theorem distinct_keys_distinct_files_witness:
  "dirLevels exampleCache = 3 \<and> prefixLen exampleCache = 2
   \<and> keyOK ''foo_info.json'' \<and> keyOK ''foo_toc.json''
   \<and> hasKey ''foo_info.json'' = hasKey ''foo_toc.json''
   \<and> (\<exists>p1 p2. getFilePath exampleCache ''foo_info.json'' = Inr p1
         \<and> getFilePath exampleCache ''foo_toc.json'' = Inr p2 \<and> p1 \<noteq> p2
         \<and> fileAt (snd (Delete exampleCache fooStorage ''foo_info.json'')) p2 = fileAt fooStorage p2)"
proof -
  have k: "keyOK ''foo_info.json''" "keyOK ''foo_toc.json''" "''foo_info.json'' \<noteq> ''foo_toc.json''"
    by (simp_all add: keyOK_def)
  show ?thesis
    using distinct_keys_distinct_files [OF exampleCache_fields(3,4) k,
        of recordCodec fooStorage 0 0 "[]" 0 0]
      k exampleCache_fields
    by (auto simp: hasKey_examples)
qed

end
